theory Spec2Isabelle
  imports Complex_Main "HOL-Library.Word"
begin

unbundle bit_operations_syntax

section \<open>The C float type\<close>

text \<open>
  A value of the C type float: a finite number, an infinity or a NaN.  Every
  arithmetic operation rounds its exact result as IEEE 754 binary32 does: to the
  nearest number with a significand of 24 bits, a tie to the even one.  The exponent is
  not bounded: overflow to infinity and gradual underflow are not part of the model.
  The infinities and NaN are, because the source divides by measured quantities that
  can be zero.  Zero has no sign here: a division of a non-zero finite value by zero
  takes the sign of the numerator.  The zero divisors of the source are conversions of
  unsigned or zero integers, which are positive zeros, but for one: a zero elapsed time
  divided by a negative sample count, where the sign of the infinity is the other one
  and its conversion to an integer is undefined either way.
\<close>

datatype cfloat = Fin real | PInf | NInf | NaN

text \<open>The nearest integer, a tie going to the even one.\<close>

definition round_even :: "real \<Rightarrow> int" where
  "round_even y =
     (let f = \<lfloor>y\<rfloor>; d = y - of_int f
      in if d < 1 / 2 then f else if 1 / 2 < d then f + 1 else if even f then f else f + 1)"

text \<open>
  Rounding to 24 significant bits: for x in the binade from 2 ^ e to 2 ^ (e + 1) the
  results are the multiples of 2 ^ (e - 23).
\<close>

definition rnd32 :: "real \<Rightarrow> real" where
  "rnd32 x =
     (if x = 0 then 0
      else (let q = 2 powr of_int (\<lfloor>log 2 \<bar>x\<bar>\<rfloor> - 23)
            in of_int (round_even (x / q)) * q))"

fun fneg :: "cfloat \<Rightarrow> cfloat" where
  "fneg (Fin a) = Fin (- a)"
| "fneg PInf = NInf"
| "fneg NInf = PInf"
| "fneg NaN = NaN"

fun fadd :: "cfloat \<Rightarrow> cfloat \<Rightarrow> cfloat" where
  "fadd NaN y = NaN"
| "fadd x NaN = NaN"
| "fadd (Fin a) (Fin b) = Fin (rnd32 (a + b))"
| "fadd PInf NInf = NaN"
| "fadd NInf PInf = NaN"
| "fadd PInf y = PInf"
| "fadd x PInf = PInf"
| "fadd NInf y = NInf"
| "fadd x NInf = NInf"

definition fsub :: "cfloat \<Rightarrow> cfloat \<Rightarrow> cfloat" where
  "fsub x y = fadd x (fneg y)"

fun fmul :: "cfloat \<Rightarrow> cfloat \<Rightarrow> cfloat" where
  "fmul NaN y = NaN"
| "fmul x NaN = NaN"
| "fmul (Fin a) (Fin b) = Fin (rnd32 (a * b))"
| "fmul PInf (Fin b) = (if b = 0 then NaN else if 0 < b then PInf else NInf)"
| "fmul NInf (Fin b) = (if b = 0 then NaN else if 0 < b then NInf else PInf)"
| "fmul (Fin a) PInf = (if a = 0 then NaN else if 0 < a then PInf else NInf)"
| "fmul (Fin a) NInf = (if a = 0 then NaN else if 0 < a then NInf else PInf)"
| "fmul PInf PInf = PInf"
| "fmul NInf NInf = PInf"
| "fmul PInf NInf = NInf"
| "fmul NInf PInf = NInf"

fun fdiv :: "cfloat \<Rightarrow> cfloat \<Rightarrow> cfloat" where
  "fdiv NaN y = NaN"
| "fdiv x NaN = NaN"
| "fdiv (Fin a) (Fin b) =
     (if b \<noteq> 0 then Fin (rnd32 (a / b))
      else if a = 0 then NaN else if 0 < a then PInf else NInf)"
| "fdiv (Fin a) PInf = Fin 0"
| "fdiv (Fin a) NInf = Fin 0"
| "fdiv PInf (Fin b) = (if 0 \<le> b then PInf else NInf)"
| "fdiv NInf (Fin b) = (if 0 \<le> b then NInf else PInf)"
| "fdiv PInf y = NaN"
| "fdiv NInf y = NaN"

text \<open>The library's sqrt and cos are taken to round their exact result in the same way.\<close>

fun fsqrt :: "cfloat \<Rightarrow> cfloat" where
  "fsqrt (Fin a) = (if a < 0 then NaN else Fin (rnd32 (sqrt a)))"
| "fsqrt PInf = PInf"
| "fsqrt NInf = NaN"
| "fsqrt NaN = NaN"

fun fcos :: "cfloat \<Rightarrow> cfloat" where
  "fcos (Fin a) = Fin (rnd32 (cos a))"
| "fcos x = NaN"

text \<open>The comparison \<open>x < y\<close>; \<open>x > y\<close> is \<open>fless y x\<close>.  A NaN compares false.\<close>

fun fless :: "cfloat \<Rightarrow> cfloat \<Rightarrow> bool" where
  "fless NaN y = False"
| "fless x NaN = False"
| "fless (Fin a) (Fin b) = (a < b)"
| "fless NInf NInf = False"
| "fless NInf y = True"
| "fless x PInf = (x \<noteq> PInf)"
| "fless PInf y = False"
| "fless x NInf = False"

text \<open>Integer to float: a value below 2 ^ 24 in size is exact, a larger one is rounded.\<close>

definition float_of_int :: "int \<Rightarrow> cfloat" where
  "float_of_int k = Fin (rnd32 (of_int k))"

text \<open>
  Float to integer truncates towards zero; the conversion is undefined in C++ when the
  truncated value does not fit the destination, and for an infinity or a NaN.
\<close>

definition trunc :: "real \<Rightarrow> int" where
  "trunc x = (if 0 \<le> x then \<lfloor>x\<rfloor> else \<lceil>x\<rceil>)"

fun int_of_float :: "cfloat \<Rightarrow> int option" where
  "int_of_float (Fin a) = Some (trunc a)"
| "int_of_float x = None"

definition uint32_of_float :: "cfloat \<Rightarrow> 32 word option" where
  "uint32_of_float x =
     (case int_of_float x of
        None \<Rightarrow> None
      | Some k \<Rightarrow> if 0 \<le> k \<and> k < 2 ^ 32 then Some (word_of_int k) else None)"

section \<open>The engine's data\<close>

text \<open>
  Modelled from the spec: the header PhoneDTMF.h (the constants TONES and MAX_FREQ, the
  tables DTMF_TONES, DTMF_MAP and DTMF_CHAR, and the member declarations) is not among
  the sources.  TONES is 8 (detect documents an array of 8 floats and an 8 bit result),
  MAX_FREQ is 6000 (the documentation of begin); the tables are parameters of the
  functions that read them.  The members have the types of their accessors and of the
  constructor's parameter; the compensation delay is an integer whose width is not
  modelled.  The default of detect's threshold argument, documented as the automatic
  one, is -1.  The platform's int has 32 bits.
\<close>

definition TONES :: nat where
  "TONES = 8"

definition MAX_FREQ :: "32 word" where
  "MAX_FREQ = 6000"

record PhoneDTMF =
  Pin :: "8 word"
  iSamplesCount :: "16 word"
  iCompensation :: int
  fBaseMagnitude :: cfloat
  iSamplesFrequence :: "32 word"
  iRealFrequence :: "32 word"
  iAdcCentre :: "16 word"
  afToneCoeff :: "cfloat list"
  afQ1 :: "cfloat list"
  afQ2 :: "cfloat list"

text \<open>
  The constructor assigns five members; the others keep what the object's memory held
  (\<open>mem\<close>).
\<close>

definition PhoneDTMF_new :: "PhoneDTMF \<Rightarrow> 16 word \<Rightarrow> PhoneDTMF" where
  "PhoneDTMF_new mem sampleCount =
     mem\<lparr>iSamplesCount := sampleCount, iCompensation := 0, fBaseMagnitude := Fin 0,
         iSamplesFrequence := MAX_FREQ, iRealFrequence := 0\<rparr>"

text \<open>The three member arrays have TONES elements each.\<close>

definition arrays_ok :: "PhoneDTMF \<Rightarrow> bool" where
  "arrays_ok st \<longleftrightarrow>
     length (afToneCoeff st) = TONES \<and> length (afQ1 st) = TONES \<and> length (afQ2 st) = TONES"

section \<open>The resonator bank\<close>

definition ProcessSample_body :: "16 word \<Rightarrow> nat \<Rightarrow> PhoneDTMF \<Rightarrow> PhoneDTMF" where
  "ProcessSample_body sample i st =
     (let Q0 = fadd (fsub (fmul (afToneCoeff st ! i) (afQ1 st ! i)) (afQ2 st ! i))
                 (float_of_int (sint sample - uint (iAdcCentre st)));
          st1 = st\<lparr>afQ2 := (afQ2 st)[i := afQ1 st ! i]\<rparr>
      in st1\<lparr>afQ1 := (afQ1 st1)[i := Q0]\<rparr>)"

definition ProcessSample :: "16 word \<Rightarrow> PhoneDTMF \<Rightarrow> PhoneDTMF" where
  "ProcessSample sample st = fold (ProcessSample_body sample) [0..<TONES] st"

definition ResetDTMF_body :: "nat \<Rightarrow> PhoneDTMF \<Rightarrow> PhoneDTMF" where
  "ResetDTMF_body i st =
     (let st1 = st\<lparr>afQ2 := (afQ2 st)[i := Fin 0]\<rparr>
      in st1\<lparr>afQ1 := (afQ1 st1)[i := Fin 0]\<rparr>)"

definition ResetDTMF :: "PhoneDTMF \<Rightarrow> PhoneDTMF" where
  "ResetDTMF st = fold ResetDTMF_body [0..<TONES] st"

section \<open>The collaborators\<close>

text \<open>
  The sampler and the millisecond clock are borrowed: the model takes what they return
  as two streams, the value of the k-th analogRead and of the k-th millis, and counts
  the calls made.  Every run of the program against some hardware is a run against the
  two streams of what that hardware returned.  pinMode, delay and delayMicroseconds
  return nothing; the time they take shows in the clock's stream only.
\<close>

record world =
  adc_in :: "nat \<Rightarrow> int"
  clock_in :: "nat \<Rightarrow> 32 word"
  adc_reads :: nat
  clock_reads :: nat

definition analogRead :: "8 word \<Rightarrow> world \<Rightarrow> int \<times> world" where
  "analogRead pin w = (adc_in w (adc_reads w), w\<lparr>adc_reads := Suc (adc_reads w)\<rparr>)"

definition millis :: "world \<Rightarrow> 32 word \<times> world" where
  "millis w = (clock_in w (clock_reads w), w\<lparr>clock_reads := Suc (clock_reads w)\<rparr>)"

definition delayMicroseconds :: "int \<Rightarrow> world \<Rightarrow> world" where
  "delayMicroseconds us w = w"

definition delay :: "int \<Rightarrow> world \<Rightarrow> world" where
  "delay ms w = w"

definition pinMode :: "8 word \<Rightarrow> world \<Rightarrow> world" where
  "pinMode pin w = w"

text \<open>The int that analogRead returns is narrowed to the int16_t parameter.\<close>

definition singleDetect :: "PhoneDTMF \<times> world \<Rightarrow> PhoneDTMF \<times> world" where
  "singleDetect sw =
     (case sw of (st, w) \<Rightarrow>
        (case analogRead (Pin st) w of (a, w1) \<Rightarrow> (ProcessSample (word_of_int a) st, w1)))"

section \<open>Classification\<close>

definition magnitude_of :: "PhoneDTMF \<Rightarrow> nat \<Rightarrow> cfloat" where
  "magnitude_of st i =
     fsqrt (fsub (fadd (fmul (afQ1 st ! i) (afQ1 st ! i)) (fmul (afQ2 st ! i) (afQ2 st ! i)))
                 (fmul (fmul (afToneCoeff st ! i) (afQ1 st ! i)) (afQ2 st ! i)))"

text \<open>The first loop of calculateMeasurement, on (dtmf_mag, midMag, maxMag).\<close>

definition measure_body ::
  "PhoneDTMF \<Rightarrow> nat \<Rightarrow> cfloat list \<times> cfloat \<times> cfloat \<Rightarrow> cfloat list \<times> cfloat \<times> cfloat" where
  "measure_body st i acc =
     (case acc of (dtmf_mag, midMag, maxMag) \<Rightarrow>
        (let dtmf_mag1 = dtmf_mag[i := magnitude_of st i];
             midMag1 = fadd midMag (dtmf_mag1 ! i);
             maxMag1 = (if fless maxMag (dtmf_mag1 ! i) then dtmf_mag1 ! i else maxMag)
         in (dtmf_mag1, midMag1, maxMag1)))"

text \<open>
  The local array dtmf_mag starts with whatever the stack holds (\<open>junk\<close>); the loop
  assigns every element before it is read.
\<close>

definition measure_loop :: "cfloat list \<Rightarrow> PhoneDTMF \<Rightarrow> cfloat list \<times> cfloat \<times> cfloat" where
  "measure_loop junk st =
     fold (measure_body st) [0..<TONES] (junk, Fin 0, fmul (fBaseMagnitude st) (Fin 3))"

text \<open>memcpy of n floats into the caller's buffer, which has room for them.\<close>

definition memcpy_floats :: "cfloat list \<Rightarrow> cfloat list \<Rightarrow> nat \<Rightarrow> cfloat list" where
  "memcpy_floats dst src n = take n src @ drop n dst"

definition resolve_magnitude :: "cfloat \<Rightarrow> cfloat \<Rightarrow> cfloat" where
  "resolve_magnitude midMag magnitude =
     (if fless magnitude (Fin 0) then fmul (fdiv midMag (float_of_int (int TONES))) (Fin 2)
      else magnitude)"

definition flag_body :: "cfloat list \<Rightarrow> cfloat \<Rightarrow> nat \<Rightarrow> 8 word \<Rightarrow> 8 word" where
  "flag_body dtmf_mag magnitude i dtmf =
     (if fless magnitude (dtmf_mag ! i) then dtmf OR push_bit i 1 else dtmf)"

definition flag_loop :: "cfloat list \<Rightarrow> cfloat \<Rightarrow> 8 word" where
  "flag_loop dtmf_mag magnitude = fold (flag_body dtmf_mag magnitude) [0..<TONES] 0"

text \<open>
  calculateMeasurement: the caller's buffer is \<open>None\<close> for a null pointer; the result
  is the bit mask, the buffer and the engine.
\<close>

definition calculateMeasurement ::
  "cfloat list option \<Rightarrow> cfloat \<Rightarrow> PhoneDTMF \<Rightarrow> 8 word \<times> cfloat list option \<times> PhoneDTMF" where
  "calculateMeasurement pRet magnitude st =
     (case measure_loop (replicate TONES (Fin 0)) st of (dtmf_mag, midMag, maxMag) \<Rightarrow>
        (let pRet1 = (case pRet of None \<Rightarrow> None
                      | Some buf \<Rightarrow> Some (memcpy_floats buf dtmf_mag TONES));
             st1 = ResetDTMF st;
             magnitude1 = resolve_magnitude midMag magnitude
         in (flag_loop dtmf_mag magnitude1, pRet1, st1)))"

text \<open>
  A run ends in a value or at a float to integer conversion that C++ leaves undefined.
\<close>

datatype failure = UndefinedConversion

text \<open>The float that detect assigns to the real frequency, from the elapsed milliseconds.\<close>

definition measured_frequence :: "32 word \<Rightarrow> 16 word \<Rightarrow> cfloat" where
  "measured_frequence fTemp samplesCount =
     fdiv (Fin 1)
       (fdiv (fdiv (float_of_int (uint fTemp)) (Fin 1000)) (float_of_int (sint samplesCount)))"

definition detect_body :: "nat \<Rightarrow> PhoneDTMF \<times> world \<Rightarrow> PhoneDTMF \<times> world" where
  "detect_body index sw =
     (case singleDetect sw of (st, w) \<Rightarrow> (st, delayMicroseconds (iCompensation st) w))"

definition detect ::
  "cfloat list option \<Rightarrow> cfloat \<Rightarrow> PhoneDTMF \<times> world \<Rightarrow>
     failure + (8 word \<times> cfloat list option \<times> PhoneDTMF \<times> world)" where
  "detect pMagnitudes magnitude sw =
     (case sw of (st, w) \<Rightarrow>
      (case millis w of (t0, w1) \<Rightarrow>
      (case fold detect_body [0..<nat (sint (iSamplesCount st))] (st, w1) of (st1, w2) \<Rightarrow>
      (case millis w2 of (t1, w3) \<Rightarrow>
        (let fTemp = t1 - t0
         in (case uint32_of_float (measured_frequence fTemp (iSamplesCount st1)) of
               None \<Rightarrow> Inl UndefinedConversion
             | Some rf \<Rightarrow>
                 (case calculateMeasurement pMagnitudes magnitude (st1\<lparr>iRealFrequence := rf\<rparr>) of
                    (dtmf, pRet, st2) \<Rightarrow> Inr (dtmf, pRet, st2, w3))))))))"

section \<open>The symbol table\<close>

function tone2char_from :: "8 word list \<Rightarrow> char list \<Rightarrow> 8 word \<Rightarrow> nat \<Rightarrow> char" where
  "tone2char_from DTMF_MAP DTMF_CHAR dtmf j =
     (if j < TONES * 2
      then (if dtmf = DTMF_MAP ! j then DTMF_CHAR ! j
            else tone2char_from DTMF_MAP DTMF_CHAR dtmf (Suc j))
      else CHR 0x00)"
  by pat_completeness auto
termination
  by (relation "measure (\<lambda>(m, c, d, j). TONES * 2 - j)") auto

definition tone2char :: "8 word list \<Rightarrow> char list \<Rightarrow> 8 word \<Rightarrow> char" where
  "tone2char DTMF_MAP DTMF_CHAR dtmf = tone2char_from DTMF_MAP DTMF_CHAR dtmf 0"

section \<open>Initialisation\<close>

text \<open>
  begin up to its do-while loop: the warm-up of 1000 reads, the seed of the compensation
  delay, the ADC centre and the host's sample frequency.
\<close>

definition host_frequence :: "32 word \<Rightarrow> cfloat" where
  "host_frequence t1 = fmul (fdiv (Fin 1000) (float_of_int (uint t1))) (Fin 1000)"

definition compensation_seed :: "32 word \<Rightarrow> cfloat \<Rightarrow> cfloat" where
  "compensation_seed maxFrequence sampleFrequence =
     fmul (fsub (fdiv (Fin 1000) (float_of_int (uint maxFrequence)))
                (fdiv (Fin 1000) sampleFrequence))
          (Fin 1000)"

definition begin_warmup ::
  "8 word \<Rightarrow> 32 word \<Rightarrow> PhoneDTMF \<times> world \<Rightarrow> failure + (PhoneDTMF \<times> world)" where
  "begin_warmup sensorPin maxFrequence sw =
     (case sw of (st, w) \<Rightarrow>
      (let st1 = st\<lparr>Pin := sensorPin\<rparr>;
           w0 = delay 10 (pinMode (Pin st1) w)
       in
      (case millis w0 of (ta, w1) \<Rightarrow>
      (case fold (\<lambda>j. singleDetect) [0..<1000] (st1, w1) of (st2, w2) \<Rightarrow>
      (case millis w2 of (tb, w3) \<Rightarrow>
        (let t1 = tb - ta;
             sampleFrequence = host_frequence t1;
             seed =
               (if fless (float_of_int (uint maxFrequence)) sampleFrequence
                then int_of_float (compensation_seed maxFrequence sampleFrequence)
                else Some (iCompensation st2))
         in (case seed of
               None \<Rightarrow> Inl UndefinedConversion
             | Some c \<Rightarrow>
                 (case analogRead (Pin st2) w3 of (a, w4) \<Rightarrow>
                    (case uint32_of_float sampleFrequence of
                       None \<Rightarrow> Inl UndefinedConversion
                     | Some sf \<Rightarrow>
                         Inr (st2\<lparr>iCompensation := c, iAdcCentre := word_of_int a,
                                  iSamplesFrequence := sf\<rparr>, w4))))))))))"

text \<open>
  One pass through the body of the do-while loop, on (magnitudes, engine, world):
  a detection block in auto mode that fills the local array magnitudes, then the two
  adjustments of the compensation delay.
\<close>

definition rate_step ::
  "32 word \<Rightarrow> cfloat list \<times> PhoneDTMF \<times> world \<Rightarrow> failure + (cfloat list \<times> PhoneDTMF \<times> world)" where
  "rate_step maxFrequence s =
     (case s of (magnitudes, st, w) \<Rightarrow>
      (case detect (Some magnitudes) (Fin (- 1)) (st, w) of
         Inl e \<Rightarrow> Inl e
       | Inr (dtmf, pRet, st1, w1) \<Rightarrow>
           (let st2 = (if maxFrequence < iRealFrequence st1 \<and> iCompensation st1 < 200
                       then st1\<lparr>iCompensation := iCompensation st1 + 1\<rparr> else st1);
                st3 = (if iRealFrequence st2 < maxFrequence - 150 \<and> 0 < iCompensation st2
                       then st2\<lparr>iCompensation := iCompensation st2 - 1\<rparr> else st2)
            in Inr (case pRet of None \<Rightarrow> magnitudes | Some m \<Rightarrow> m, st3, w1))))"

text \<open>
  The do-while loop: it goes round again while the frequency measured by this pass
  differs from the one stored before it.  \<open>None\<close> is a loop that never leaves.
\<close>

partial_function (option) rate_adjust ::
  "32 word \<Rightarrow> cfloat list \<times> PhoneDTMF \<times> world \<Rightarrow>
     (failure + (cfloat list \<times> PhoneDTMF \<times> world)) option" where
  "rate_adjust maxFrequence s =
     (case rate_step maxFrequence s of
        Inl e \<Rightarrow> Some (Inl e)
      | Inr s1 \<Rightarrow>
          if iRealFrequence (fst (snd s)) \<noteq> iRealFrequence (fst (snd s1))
          then rate_adjust maxFrequence s1
          else Some (Inr s1))"

text \<open>The same loop stopped after at most \<open>n\<close> passes; \<open>None\<close> when they do not suffice.\<close>

fun rate_adjust_upto ::
  "nat \<Rightarrow> 32 word \<Rightarrow> cfloat list \<times> PhoneDTMF \<times> world \<Rightarrow>
     (failure + (cfloat list \<times> PhoneDTMF \<times> world)) option" where
  "rate_adjust_upto 0 maxFrequence s = None"
| "rate_adjust_upto (Suc n) maxFrequence s =
     (case rate_step maxFrequence s of
        Inl e \<Rightarrow> Some (Inl e)
      | Inr s1 \<Rightarrow>
          if iRealFrequence (fst (snd s)) \<noteq> iRealFrequence (fst (snd s1))
          then rate_adjust_upto n maxFrequence s1
          else Some (Inr s1))"

text \<open>
  The state in which the loop's pass number \<open>n + 1\<close> starts: the one reached by
  \<open>n\<close> passes that each measured a frequency other than the one stored before it.
  \<open>None\<close> when one of them ends at an undefined conversion or is the loop's last.
\<close>

fun rate_passes ::
  "nat \<Rightarrow> 32 word \<Rightarrow> cfloat list \<times> PhoneDTMF \<times> world \<Rightarrow>
     (cfloat list \<times> PhoneDTMF \<times> world) option" where
  "rate_passes 0 maxFrequence s = Some s"
| "rate_passes (Suc n) maxFrequence s =
     (case rate_step maxFrequence s of
        Inl e \<Rightarrow> None
      | Inr s1 \<Rightarrow>
          if iRealFrequence (fst (snd s)) \<noteq> iRealFrequence (fst (snd s1))
          then rate_passes n maxFrequence s1
          else None)"

definition average :: "cfloat list \<Rightarrow> cfloat" where
  "average magnitudes =
     fdiv (fold (\<lambda>j b. fadd b (magnitudes ! j)) [0..<TONES] (Fin 0)) (float_of_int (int TONES))"

text \<open>
  The coefficient of tone i.  PI is the float nearest to pi and every operation is one
  of floats; on a platform whose double is wider the products and the quotient are
  rounded less often, and the division by a frequency of zero is the same.
\<close>

definition coeff_body :: "real list \<Rightarrow> nat \<Rightarrow> PhoneDTMF \<Rightarrow> PhoneDTMF" where
  "coeff_body DTMF_TONES i st =
     (let omega = fdiv (fmul (fmul (Fin 2) (Fin (rnd32 pi))) (Fin (DTMF_TONES ! i)))
                       (float_of_int (uint (iRealFrequence st)))
      in st\<lparr>afToneCoeff := (afToneCoeff st)[i := fmul (Fin 2) (fcos omega)]\<rparr>)"

text \<open>
  begin after the loop: the base magnitude from the local array magnitudes, the
  coefficients, the reset, and the result narrowed to 16 bits.
\<close>

definition begin_finish ::
  "real list \<Rightarrow> cfloat list \<times> PhoneDTMF \<times> world \<Rightarrow> 16 word \<times> PhoneDTMF \<times> world" where
  "begin_finish DTMF_TONES s =
     (case s of (magnitudes, st, w) \<Rightarrow>
        (let st1 = st\<lparr>fBaseMagnitude := average magnitudes\<rparr>;
             st2 = fold (coeff_body DTMF_TONES) [0..<TONES] st1;
             st3 = ResetDTMF st2
         in (ucast (iRealFrequence st3), st3, w)))"

text \<open>
  begin.  Its local array magnitudes starts with whatever the stack holds; every pass of
  the loop overwrites all of it, and the loop makes at least one pass.
\<close>

definition begin_PhoneDTMF ::
  "real list \<Rightarrow> 8 word \<Rightarrow> 32 word \<Rightarrow> PhoneDTMF \<times> world \<Rightarrow>
     (failure + (16 word \<times> PhoneDTMF \<times> world)) option" where
  "begin_PhoneDTMF DTMF_TONES sensorPin maxFrequence sw =
     (case begin_warmup sensorPin maxFrequence sw of
        Inl e \<Rightarrow> Some (Inl e)
      | Inr (st, w) \<Rightarrow>
          (case rate_adjust maxFrequence (replicate TONES (Fin 0), st, w) of
             None \<Rightarrow> None
           | Some (Inl e) \<Rightarrow> Some (Inl e)
           | Some (Inr s) \<Rightarrow> Some (Inr (begin_finish DTMF_TONES s))))"

section \<open>Notions used in the statements\<close>

text \<open>
  Two engines agree on everything but the resonator arrays; two worlds agree on the
  streams and on the clock's position.
\<close>

definition same_config :: "PhoneDTMF \<Rightarrow> PhoneDTMF \<Rightarrow> bool" where
  "same_config st st' \<longleftrightarrow>
     Pin st' = Pin st \<and> iSamplesCount st' = iSamplesCount st \<and>
     iCompensation st' = iCompensation st \<and> fBaseMagnitude st' = fBaseMagnitude st \<and>
     iSamplesFrequence st' = iSamplesFrequence st \<and> iRealFrequence st' = iRealFrequence st \<and>
     iAdcCentre st' = iAdcCentre st \<and> afToneCoeff st' = afToneCoeff st"

definition same_streams :: "world \<Rightarrow> world \<Rightarrow> bool" where
  "same_streams w w' \<longleftrightarrow>
     adc_in w' = adc_in w \<and> clock_in w' = clock_in w \<and> clock_reads w' = clock_reads w"

text \<open>The state and the world in which a detection block ends its sampling.\<close>

definition sampled :: "PhoneDTMF \<times> world \<Rightarrow> PhoneDTMF \<times> world" where
  "sampled sw =
     fold detect_body [0..<nat (sint (iSamplesCount (fst sw)))]
       (fst sw, (snd sw)\<lparr>clock_reads := Suc (clock_reads (snd sw))\<rparr>)"

definition elapsed :: "world \<Rightarrow> 32 word" where
  "elapsed w = clock_in w (Suc (clock_reads w)) - clock_in w (clock_reads w)"

text \<open>The state and the world in which begin ends its 1000 warm-up reads.\<close>

definition warmed :: "8 word \<Rightarrow> PhoneDTMF \<times> world \<Rightarrow> PhoneDTMF \<times> world" where
  "warmed sensorPin sw =
     fold (\<lambda>j. singleDetect) [0..<1000]
       ((fst sw)\<lparr>Pin := sensorPin\<rparr>, (snd sw)\<lparr>clock_reads := Suc (clock_reads (snd sw))\<rparr>)"

text \<open>The compensation delay after the two adjustments of one pass of the loop.\<close>

definition adjusted :: "32 word \<Rightarrow> 32 word \<Rightarrow> int \<Rightarrow> int" where
  "adjusted maxFrequence rf c =
     (let c1 = (if maxFrequence < rf \<and> c < 200 then c + 1 else c)
      in if rf < maxFrequence - 150 \<and> 0 < c1 then c1 - 1 else c1)"

text \<open>The milliseconds that the j-th block from now takes by the clock's stream.\<close>

definition block_elapsed :: "world \<Rightarrow> nat \<Rightarrow> 32 word" where
  "block_elapsed w j =
     clock_in w (clock_reads w + 2 * j + 1) - clock_in w (clock_reads w + 2 * j)"

text \<open>
  The noise floor as the specification words it, to be compared with
  \<open>begin_PhoneDTMF\<close>: when the loop has left, one more detection block is run, and
  the magnitudes of that block are the ones averaged.
\<close>

definition begin_extra_block ::
  "real list \<Rightarrow> 8 word \<Rightarrow> 32 word \<Rightarrow> PhoneDTMF \<times> world \<Rightarrow>
     (failure + (16 word \<times> PhoneDTMF \<times> world)) option" where
  "begin_extra_block DTMF_TONES sensorPin maxFrequence sw =
     (case begin_warmup sensorPin maxFrequence sw of
        Inl e \<Rightarrow> Some (Inl e)
      | Inr (st, w) \<Rightarrow>
          (case rate_adjust maxFrequence (replicate TONES (Fin 0), st, w) of
             None \<Rightarrow> None
           | Some (Inl e) \<Rightarrow> Some (Inl e)
           | Some (Inr (m, st1, w1)) \<Rightarrow>
               (case detect (Some m) (Fin (- 1)) (st1, w1) of
                  Inl e \<Rightarrow> Some (Inl e)
                | Inr (dtmf, pRet, st2, w2) \<Rightarrow>
                    Some (Inr (begin_finish DTMF_TONES
                                 (case pRet of None \<Rightarrow> m | Some m2 \<Rightarrow> m2, st2, w2))))))"

text \<open>An engine with zero coefficients, zero resonators and a zero ADC centre.\<close>

definition calm :: "PhoneDTMF \<Rightarrow> bool" where
  "calm st \<longleftrightarrow>
     afToneCoeff st = replicate TONES (Fin 0) \<and> afQ1 st = replicate TONES (Fin 0) \<and>
     afQ2 st = replicate TONES (Fin 0) \<and> iAdcCentre st = 0"

text \<open>Inputs on which the theorems are run.\<close>

definition engine_A :: PhoneDTMF where
  "engine_A =
     \<lparr>Pin = 0, iSamplesCount = 2, iCompensation = 0, fBaseMagnitude = Fin 0,
      iSamplesFrequence = 6000, iRealFrequence = 0, iAdcCentre = 2,
      afToneCoeff = [Fin 1, Fin 2, Fin 3, Fin 4, Fin 5, Fin 6, Fin 7, Fin 8],
      afQ1 = [Fin 1, Fin 1, Fin 1, Fin 1, Fin 2, Fin 2, Fin 2, Fin 2],
      afQ2 = [Fin 0, Fin 1, Fin 0, Fin 1, Fin 0, Fin 1, Fin 0, Fin 1]\<rparr>"

definition engine_B :: PhoneDTMF where
  "engine_B =
     \<lparr>Pin = 0, iSamplesCount = 2, iCompensation = 0, fBaseMagnitude = Fin 0,
      iSamplesFrequence = 6000, iRealFrequence = 0, iAdcCentre = 0,
      afToneCoeff = replicate 8 (Fin 2), afQ1 = replicate 8 (Fin 1),
      afQ2 = replicate 8 (Fin 0)\<rparr>"

text \<open>An engine whose eight magnitudes are all 11184811.\<close>

definition engine_M :: PhoneDTMF where
  "engine_M =
     \<lparr>Pin = 0, iSamplesCount = 2, iCompensation = 0, fBaseMagnitude = Fin 0,
      iSamplesFrequence = 6000, iRealFrequence = 0, iAdcCentre = 0,
      afToneCoeff = replicate 8 (Fin 0), afQ1 = replicate 8 (Fin 11184811),
      afQ2 = replicate 8 (Fin 0)\<rparr>"

text \<open>A silent line and a clock that advances one millisecond from call to call.\<close>

definition world_A :: world where
  "world_A = \<lparr>adc_in = (\<lambda>k. 0), clock_in = (\<lambda>k. of_nat k), adc_reads = 0, clock_reads = 0\<rparr>"

text \<open>
  An engine in zeroed memory, as a global object has it, built for blocks of 2, of 0
  and of 128 samples.
\<close>

definition zero_memory :: PhoneDTMF where
  "zero_memory =
     \<lparr>Pin = 0, iSamplesCount = 0, iCompensation = 0, fBaseMagnitude = Fin 0,
      iSamplesFrequence = 0, iRealFrequence = 0, iAdcCentre = 0,
      afToneCoeff = replicate TONES (Fin 0), afQ1 = replicate TONES (Fin 0),
      afQ2 = replicate TONES (Fin 0)\<rparr>"

definition engine_2 :: PhoneDTMF where
  "engine_2 = PhoneDTMF_new zero_memory 2"


definition engine_128 :: PhoneDTMF where
  "engine_128 = PhoneDTMF_new zero_memory 128"

text \<open>The same clock; the line is silent but for the readings 3 and 4 at the reads 1003 and 1004.\<close>

definition world_C :: world where
  "world_C =
     \<lparr>adc_in = (\<lambda>k. if k = 1003 then 3 else if k = 1004 then 4 else 0),
      clock_in = (\<lambda>k. of_nat k), adc_reads = 0, clock_reads = 0\<rparr>"



text \<open>
  A silent line and a clock by which a pair of millis calls is 22 and 20 milliseconds
  apart in turn, the pairs starting every 50 milliseconds.
\<close>

definition jitter :: "nat \<Rightarrow> 32 word" where
  "jitter k = of_nat (50 * (k div 2)) + (if even k then 0 else if odd (k div 2) then 20 else 22)"

definition world_J :: world where
  "world_J = \<lparr>adc_in = (\<lambda>k. 0), clock_in = jitter, adc_reads = 0, clock_reads = 0\<rparr>"

text \<open>
  Under the clock \<open>jitter\<close>, the frequency that a block of 128 samples measures
  when it starts at the clock position c, and the loop's states that keep it going.
\<close>

definition jitter_frequence :: "nat \<Rightarrow> 32 word" where
  "jitter_frequence c = (if odd (c div 2) then 6400 else 5818)"

definition jitter_inv :: "cfloat list \<times> PhoneDTMF \<times> world \<Rightarrow> bool" where
  "jitter_inv s \<longleftrightarrow>
     clock_in (snd (snd s)) = jitter \<and> even (clock_reads (snd (snd s))) \<and>
     iSamplesCount (fst (snd s)) = 128 \<and>
     iRealFrequence (fst (snd s)) \<noteq> jitter_frequence (clock_reads (snd (snd s)))"

text \<open>The eight DTMF frequencies, in Hz.\<close>

definition dtmf_tones :: "real list" where
  "dtmf_tones = [697, 770, 852, 941, 1209, 1336, 1477, 1633]"

text \<open>The keypad table of sixteen symbols, row tone and column tone per key.\<close>

definition keypad_MAP :: "8 word list" where
  "keypad_MAP = [0x11, 0x21, 0x41, 0x12, 0x22, 0x42, 0x14, 0x24, 0x44, 0x28,
                 0x81, 0x82, 0x84, 0x88, 0x18, 0x48]"

definition keypad_CHAR :: "char list" where
  "keypad_CHAR = ''1234567890ABCD*#''"

section \<open>Rounding\<close>

lemma round_even_error: "\<bar>of_int (round_even y) - y\<bar> \<le> 1 / 2"
proof -
  have "of_int \<lfloor>y\<rfloor> \<le> y" "y < of_int \<lfloor>y\<rfloor> + 1" by linarith+
  then show ?thesis
    by (auto simp: round_even_def Let_def abs_le_iff)
qed

lemma round_even_unique:
  assumes "\<bar>y - of_int k\<bar> < 1 / 2"
  shows "round_even y = k"
proof -
  from assms have a: "of_int k - 1 / 2 < y" "y < of_int k + 1 / 2"
    by linarith+
  show ?thesis
  proof (cases "of_int k \<le> y")
    case True
    with a have f: "\<lfloor>y\<rfloor> = k" by (intro floor_unique) simp_all
    with True a show ?thesis by (simp add: round_even_def Let_def)
  next
    case False
    with a have f: "\<lfloor>y\<rfloor> = k - 1" by (intro floor_unique) simp_all
    with False a show ?thesis by (simp add: round_even_def Let_def)
  qed
qed

lemma round_even_of_int [simp]: "round_even (of_int k) = k"
  by (rule round_even_unique) simp

lemma rnd32_0 [simp]: "rnd32 0 = 0"
  by (simp add: rnd32_def)

lemma rnd32_rel_error: "\<bar>rnd32 x - x\<bar> \<le> \<bar>x\<bar> / 2 ^ 24"
proof (cases "x = 0")
  case True
  then show ?thesis by simp
next
  case False
  define e where "e = \<lfloor>log 2 \<bar>x\<bar>\<rfloor>"
  define q :: real where "q = 2 powr of_int (e - 23)"
  have qpos: "0 < q" by (simp add: q_def)
  have r: "rnd32 x = of_int (round_even (x / q)) * q"
    using False by (simp add: rnd32_def Let_def q_def e_def)
  have "\<bar>of_int (round_even (x / q)) - x / q\<bar> \<le> 1 / 2"
    by (rule round_even_error)
  then have "\<bar>of_int (round_even (x / q)) - x / q\<bar> * q \<le> 1 / 2 * q"
    using qpos by (intro mult_right_mono) simp_all
  moreover have "\<bar>of_int (round_even (x / q)) - x / q\<bar> * q = \<bar>rnd32 x - x\<bar>"
  proof -
    have "(of_int (round_even (x / q)) - x / q) * q = rnd32 x - x"
      using qpos by (simp add: r field_simps)
    then have "\<bar>rnd32 x - x\<bar> = \<bar>of_int (round_even (x / q)) - x / q\<bar> * \<bar>q\<bar>"
      by (simp only: abs_mult [symmetric])
    with qpos show ?thesis by simp
  qed
  ultimately have 1: "\<bar>rnd32 x - x\<bar> \<le> q / 2" by simp
  have "2 powr of_int e \<le> 2 powr log 2 \<bar>x\<bar>"
    unfolding e_def by (intro powr_mono) simp_all
  also have "\<dots> = \<bar>x\<bar>" using False by simp
  finally have 2: "2 powr of_int e \<le> \<bar>x\<bar>" .
  have "q = 2 powr of_int e / 2 ^ 23"
    by (simp add: q_def powr_diff)
  with 2 have "q / 2 \<le> \<bar>x\<bar> / 2 ^ 24"
    by (simp add: field_simps)
  with 1 show ?thesis by linarith
qed


lemma rnd32_eval:
  assumes "2 powr of_int e \<le> \<bar>x\<bar>" "\<bar>x\<bar> < 2 powr of_int (e + 1)"
  shows "rnd32 x = of_int (round_even (x / 2 powr of_int (e - 23))) * 2 powr of_int (e - 23)"
proof -
  have p: "0 < (2::real) powr of_int e" by simp
  with assms(1) have x: "0 < \<bar>x\<bar>" by linarith
  then have nz: "x \<noteq> 0" by simp
  have "\<lfloor>log 2 \<bar>x\<bar>\<rfloor> = e"
    using x assms by (subst floor_log_eq_powr_iff) simp_all
  with nz show ?thesis by (simp add: rnd32_def Let_def)
qed

lemma rnd32_eval_up:
  assumes "2 ^ n \<le> \<bar>x\<bar>" "\<bar>x\<bar> < 2 * 2 ^ n" "\<bar>x * 2 ^ 23 / 2 ^ n - of_int k\<bar> < 1 / 2"
  shows "rnd32 x = of_int k * 2 ^ n / 2 ^ 23"
proof -
  have a: "(2::real) powr of_int (int n) = 2 ^ n"
    by (simp add: powr_realpow)
  have b: "(2::real) powr of_int (int n + 1) = 2 * 2 ^ n"
    by (simp add: powr_add powr_realpow)
  have q: "(2::real) powr of_int (int n - 23) = 2 ^ n / 2 ^ 23"
    by (simp add: powr_diff powr_realpow)
  have "rnd32 x = of_int (round_even (x / (2 ^ n / 2 ^ 23))) * (2 ^ n / 2 ^ 23)"
    using rnd32_eval [of "int n" x] assms(1,2) unfolding a b q by simp
  moreover have "x / (2 ^ n / 2 ^ 23) = x * 2 ^ 23 / 2 ^ n" by simp
  moreover have "round_even (x * 2 ^ 23 / 2 ^ n) = k"
    using assms(3) by (rule round_even_unique)
  ultimately show ?thesis by simp
qed

lemma rnd32_eval_down:
  assumes "1 \<le> \<bar>x\<bar> * 2 ^ n" "\<bar>x\<bar> * 2 ^ n < 2" "\<bar>x * 2 ^ n * 2 ^ 23 - of_int k\<bar> < 1 / 2"
  shows "rnd32 x = of_int k / (2 ^ n * 2 ^ 23)"
proof -
  have a: "(2::real) powr of_int (- int n) = 1 / 2 ^ n"
    by (simp add: powr_minus powr_realpow inverse_eq_divide)
  have "(2::real) powr (- real n + 1) = 2 powr (- real n) * 2 powr 1"
    by (rule powr_add)
  then have b: "(2::real) powr of_int (- int n + 1) = 2 / 2 ^ n"
    by (simp add: powr_minus powr_realpow inverse_eq_divide)
  have q: "(2::real) powr of_int (- int n - 23) = 1 / (2 ^ n * 2 ^ 23)"
    by (simp add: powr_diff powr_minus powr_realpow inverse_eq_divide)
  have 1: "1 / 2 ^ n \<le> \<bar>x\<bar>" using assms(1) by (simp add: field_simps)
  have 2: "\<bar>x\<bar> < 2 / 2 ^ n" using assms(2) by (simp add: field_simps)
  have r: "rnd32 x = of_int (round_even (x / (1 / (2 ^ n * 2 ^ 23)))) * (1 / (2 ^ n * 2 ^ 23))"
    using rnd32_eval [of "- int n" x] 1 2 unfolding a b q by simp
  have d: "x / (1 / (2 ^ n * 2 ^ 23)) = x * 2 ^ n * 2 ^ 23" by simp
  have k: "round_even (x * 2 ^ n * 2 ^ 23) = k"
    using assms(3) by (rule round_even_unique)
  show ?thesis unfolding r d k by simp
qed

lemma rnd32_of_int:
  assumes "\<bar>k\<bar> < 2 ^ 24"
  shows "rnd32 (of_int k) = of_int k"
proof (cases "k = 0")
  case True
  then show ?thesis by simp
next
  case False
  define x :: real where "x = of_int k"
  define e where "e = \<lfloor>log 2 \<bar>x\<bar>\<rfloor>"
  have x1: "1 \<le> \<bar>x\<bar>" using False by (simp add: x_def flip: of_int_abs)
  have "real_of_int \<bar>k\<bar> < real_of_int (2 ^ 24)"
    using assms by (simp only: of_int_less_iff)
  then have x2: "\<bar>x\<bar> < 2 ^ 24"
    by (simp add: x_def)
  have "0 \<le> log 2 \<bar>x\<bar>" using x1 by simp
  then have e0: "0 \<le> e" by (simp add: e_def)
  have "log 2 \<bar>x\<bar> < 24"
    using x1 x2 by (subst log_less_iff) (simp_all add: powr_realpow [of 2 24, simplified])
  then have e23: "e \<le> 23" unfolding e_def by linarith
  define m where "m = nat (23 - e)"
  have m: "23 - e = int m" using e23 by (simp add: m_def)
  define q :: real where "q = 2 powr of_int (e - 23)"
  have r: "rnd32 x = of_int (round_even (x / q)) * q"
    using False by (simp add: rnd32_def Let_def q_def e_def x_def)
  have "e - 23 = - int m" using m by simp
  then have "q = 2 powr of_int (- int m)" by (simp only: q_def)
  then have q: "q = 1 / 2 ^ m"
    by (simp add: powr_minus powr_realpow inverse_eq_divide)
  have "x / (1 / 2 ^ m) = of_int (k * 2 ^ m)"
    by (simp add: x_def)
  then have "round_even (x / (1 / 2 ^ m)) = k * 2 ^ m"
    by (simp only: round_even_of_int)
  then have "rnd32 x = of_int (k * 2 ^ m) * (1 / 2 ^ m)"
    unfolding r q by (simp only:)
  then show ?thesis
    by (simp add: x_def)
qed

lemma rnd32_numeral [simp]:
  "(numeral w :: int) < 2 ^ 24 \<Longrightarrow> rnd32 (numeral w) = numeral w"
  using rnd32_of_int [of "numeral w"] by simp

lemma rnd32_neg_numeral [simp]:
  "(numeral w :: int) < 2 ^ 24 \<Longrightarrow> rnd32 (- numeral w) = - numeral w"
  using rnd32_of_int [of "- numeral w"] by simp

lemma rnd32_1 [simp]: "rnd32 1 = 1"
  using rnd32_of_int [of 1] by simp

lemma rnd32_bounds:
  assumes "0 \<le> x"
  shows "x * (1 - 1 / 2 ^ 24) \<le> rnd32 x" "rnd32 x \<le> x * (1 + 1 / 2 ^ 24)"
proof -
  have "\<bar>rnd32 x - x\<bar> \<le> x / 2 ^ 24"
    using rnd32_rel_error [of x] assms by simp
  then have "- (x / 2 ^ 24) \<le> rnd32 x - x" "rnd32 x - x \<le> x / 2 ^ 24"
    by linarith+
  then show "x * (1 - 1 / 2 ^ 24) \<le> rnd32 x" "rnd32 x \<le> x * (1 + 1 / 2 ^ 24)"
    by (simp_all add: algebra_simps)
qed

lemma rnd32_nonneg: "0 \<le> x \<Longrightarrow> 0 \<le> rnd32 x"
proof -
  assume x: "0 \<le> x"
  have "0 \<le> x * (1 - 1 / 2 ^ 24)" using x by simp
  with rnd32_bounds(1) [OF x] show ?thesis by linarith
qed

lemma rnd32_pos: "0 < x \<Longrightarrow> 0 < rnd32 x"
proof -
  assume x: "0 < x"
  have "0 < x * (1 - 1 / 2 ^ 24)" using x by simp
  with rnd32_bounds(1) [of x] x show ?thesis by linarith
qed


lemma rnd32_coarse:
  assumes "0 \<le> x"
  shows "x / 2 \<le> rnd32 x" "rnd32 x \<le> 2 * x"
  using rnd32_bounds [OF assms] assms by simp_all


section \<open>The loops in closed form\<close>


lemma ProcessSample_prefix:
  "k \<le> TONES \<Longrightarrow> arrays_ok st \<Longrightarrow>
   fold (ProcessSample_body sample) [0..<k] st =
     st\<lparr>afQ2 := take k (afQ1 st) @ drop k (afQ2 st),
        afQ1 := map (\<lambda>i. fadd (fsub (fmul (afToneCoeff st ! i) (afQ1 st ! i)) (afQ2 st ! i))
                         (float_of_int (sint sample - uint (iAdcCentre st)))) [0..<k]
                @ drop k (afQ1 st)\<rparr>"
proof (induction k)
  case 0
  then show ?case by simp
next
  case (Suc k)
  then have k: "k < length (afQ1 st)" "k < length (afQ2 st)" "length (afQ2 st) = length (afQ1 st)"
    by (simp_all add: arrays_ok_def)
  have "fold (ProcessSample_body sample) [0..<Suc k] st =
        ProcessSample_body sample k (fold (ProcessSample_body sample) [0..<k] st)"
    by simp
  also have "\<dots> = ProcessSample_body sample k
      (st\<lparr>afQ2 := take k (afQ1 st) @ drop k (afQ2 st),
          afQ1 := map (\<lambda>i. fadd (fsub (fmul (afToneCoeff st ! i) (afQ1 st ! i)) (afQ2 st ! i))
                         (float_of_int (sint sample - uint (iAdcCentre st)))) [0..<k]
                  @ drop k (afQ1 st)\<rparr>)"
    using Suc by simp
  also have "\<dots> = st\<lparr>afQ2 := take (Suc k) (afQ1 st) @ drop (Suc k) (afQ2 st),
        afQ1 := map (\<lambda>i. fadd (fsub (fmul (afToneCoeff st ! i) (afQ1 st ! i)) (afQ2 st ! i))
                         (float_of_int (sint sample - uint (iAdcCentre st)))) [0..<Suc k]
                @ drop (Suc k) (afQ1 st)\<rparr>"
    using k
    by (simp add: ProcessSample_body_def Let_def nth_append
        list_update_append take_Suc_conv_app_nth upd_conv_take_nth_drop min_def)
  finally show ?case .
qed

lemma ProcessSample_closed:
  assumes "arrays_ok st"
  shows "ProcessSample sample st =
     st\<lparr>afQ2 := afQ1 st,
        afQ1 := map (\<lambda>i. fadd (fsub (fmul (afToneCoeff st ! i) (afQ1 st ! i)) (afQ2 st ! i))
                         (float_of_int (sint sample - uint (iAdcCentre st)))) [0..<TONES]\<rparr>"
  using ProcessSample_prefix [of TONES st sample] assms
  by (simp add: ProcessSample_def arrays_ok_def)

lemma ProcessSample_arrays_ok: "arrays_ok st \<Longrightarrow> arrays_ok (ProcessSample sample st)"
  by (simp add: ProcessSample_closed) (simp add: arrays_ok_def)

lemma ResetDTMF_prefix:
  "k \<le> TONES \<Longrightarrow> arrays_ok st \<Longrightarrow>
   fold ResetDTMF_body [0..<k] st =
     st\<lparr>afQ2 := replicate k (Fin 0) @ drop k (afQ2 st),
        afQ1 := replicate k (Fin 0) @ drop k (afQ1 st)\<rparr>"
proof (induction k)
  case 0
  then show ?case by simp
next
  case (Suc k)
  then have k: "k < length (afQ1 st)" "k < length (afQ2 st)"
    by (simp_all add: arrays_ok_def)
  have "fold ResetDTMF_body [0..<Suc k] st = ResetDTMF_body k (fold ResetDTMF_body [0..<k] st)"
    by simp
  also have "\<dots> = ResetDTMF_body k
      (st\<lparr>afQ2 := replicate k (Fin 0) @ drop k (afQ2 st),
          afQ1 := replicate k (Fin 0) @ drop k (afQ1 st)\<rparr>)"
    using Suc by simp
  also have "\<dots> = st\<lparr>afQ2 := replicate (Suc k) (Fin 0) @ drop (Suc k) (afQ2 st),
        afQ1 := replicate (Suc k) (Fin 0) @ drop (Suc k) (afQ1 st)\<rparr>"
    using k
    by (simp add: ResetDTMF_body_def Let_def list_update_append
        upd_conv_take_nth_drop replicate_append_same)
  finally show ?case .
qed

lemma ResetDTMF_closed:
  "arrays_ok st \<Longrightarrow>
   ResetDTMF st = st\<lparr>afQ2 := replicate TONES (Fin 0), afQ1 := replicate TONES (Fin 0)\<rparr>"
  using ResetDTMF_prefix [of TONES st] by (simp add: ResetDTMF_def arrays_ok_def)

lemma ResetDTMF_arrays_ok: "arrays_ok st \<Longrightarrow> arrays_ok (ResetDTMF st)"
  by (simp add: ResetDTMF_closed) (simp add: arrays_ok_def)

lemma measure_prefix:
  "k \<le> length junk \<Longrightarrow>
   fold (measure_body st) [0..<k] (junk, mid, mx) =
     (map (magnitude_of st) [0..<k] @ drop k junk,
      fold (\<lambda>i b. fadd b (magnitude_of st i)) [0..<k] mid,
      fold (\<lambda>i m. if fless m (magnitude_of st i) then magnitude_of st i else m) [0..<k] mx)"
proof (induction k)
  case 0
  then show ?case by simp
next
  case (Suc k)
  then have k: "k < length junk" by simp
  then show ?case
    using Suc
    by (simp add: measure_body_def Let_def list_update_append upd_conv_take_nth_drop
        nth_append)
qed

lemma measure_loop_closed:
  "length junk = TONES \<Longrightarrow>
   measure_loop junk st =
     (map (magnitude_of st) [0..<TONES],
      fold (\<lambda>i b. fadd b (magnitude_of st i)) [0..<TONES] (Fin 0),
      fold (\<lambda>i m. if fless m (magnitude_of st i) then magnitude_of st i else m) [0..<TONES]
        (fmul (fBaseMagnitude st) (Fin 3)))"
  by (simp add: measure_loop_def measure_prefix)


lemma magnitude_of_base [simp]:
  "magnitude_of (st\<lparr>fBaseMagnitude := b\<rparr>) = magnitude_of st"
  by (rule ext) (simp add: magnitude_of_def)

lemma ResetDTMF_body_iRealFrequence: "iRealFrequence (ResetDTMF_body i st) = iRealFrequence st"
  by (simp add: ResetDTMF_body_def Let_def)

lemma calculateMeasurement_state:
  "snd (snd (calculateMeasurement pRet magnitude st)) = ResetDTMF st"
  by (simp add: calculateMeasurement_def Let_def split: prod.splits)

lemma same_config_refl [simp]: "same_config st st"
  by (simp add: same_config_def)

lemma same_config_trans: "same_config a b \<Longrightarrow> same_config b c \<Longrightarrow> same_config a c"
  by (simp add: same_config_def)

lemma same_streams_refl [simp]: "same_streams w w"
  by (simp add: same_streams_def)

lemma same_streams_trans: "same_streams a b \<Longrightarrow> same_streams b c \<Longrightarrow> same_streams a c"
  by (simp add: same_streams_def)

lemma ProcessSample_body_config: "same_config st (ProcessSample_body sample i st)"
  by (simp add: same_config_def ProcessSample_body_def Let_def)

lemma fold_ProcessSample_body_config:
  "same_config st (fold (ProcessSample_body sample) xs st)"
proof (induction xs arbitrary: st)
  case Nil
  show ?case by simp
next
  case (Cons x xs)
  show ?case
    using same_config_trans [OF ProcessSample_body_config Cons.IH] by simp
qed

lemma ProcessSample_config: "same_config st (ProcessSample sample st)"
  by (simp add: ProcessSample_def fold_ProcessSample_body_config)

lemma ResetDTMF_body_config: "same_config st (ResetDTMF_body i st)"
  by (simp add: same_config_def ResetDTMF_body_def Let_def)

lemma fold_ResetDTMF_body_config: "same_config st (fold ResetDTMF_body xs st)"
proof (induction xs arbitrary: st)
  case Nil
  show ?case by simp
next
  case (Cons x xs)
  show ?case
    using same_config_trans [OF ResetDTMF_body_config Cons.IH] by simp
qed

lemma ResetDTMF_config: "same_config st (ResetDTMF st)"
  by (simp add: ResetDTMF_def fold_ResetDTMF_body_config)

lemma singleDetect_frame:
  "same_config st (fst (singleDetect (st, w))) \<and>
   same_streams w (snd (singleDetect (st, w))) \<and>
   adc_reads (snd (singleDetect (st, w))) = Suc (adc_reads w)"
  by (simp add: singleDetect_def analogRead_def ProcessSample_config same_streams_def)

lemma detect_body_frame:
  "same_config st (fst (detect_body i (st, w))) \<and>
   same_streams w (snd (detect_body i (st, w))) \<and>
   adc_reads (snd (detect_body i (st, w))) = Suc (adc_reads w)"
  using singleDetect_frame [of st w]
  by (cases "singleDetect (st, w)") (simp add: detect_body_def delayMicroseconds_def)

lemma fold_detect_body_frame:
  "same_config st (fst (fold detect_body xs (st, w))) \<and>
   same_streams w (snd (fold detect_body xs (st, w))) \<and>
   adc_reads (snd (fold detect_body xs (st, w))) = adc_reads w + length xs"
proof (induction xs arbitrary: st w)
  case Nil
  show ?case by simp
next
  case (Cons x xs)
  obtain st1 w1 where b: "detect_body x (st, w) = (st1, w1)"
    by (cases "detect_body x (st, w)")
  from detect_body_frame [of st x w] b
  have 1: "same_config st st1" "same_streams w w1" "adc_reads w1 = Suc (adc_reads w)"
    by simp_all
  from Cons.IH [of st1 w1] 1 b show ?case
    by (auto intro: same_config_trans same_streams_trans)
qed

lemma fold_singleDetect_frame:
  "same_config st (fst (fold (\<lambda>j. singleDetect) xs (st, w))) \<and>
   same_streams w (snd (fold (\<lambda>j. singleDetect) xs (st, w))) \<and>
   adc_reads (snd (fold (\<lambda>j. singleDetect) xs (st, w))) = adc_reads w + length xs"
proof (induction xs arbitrary: st w)
  case Nil
  show ?case by simp
next
  case (Cons x xs)
  obtain st1 w1 where b: "singleDetect (st, w) = (st1, w1)"
    by (cases "singleDetect (st, w)")
  from singleDetect_frame [of st w] b
  have 1: "same_config st st1" "same_streams w w1" "adc_reads w1 = Suc (adc_reads w)"
    by simp_all
  from Cons.IH [of st1 w1] 1 b show ?case
    by (auto intro: same_config_trans same_streams_trans)
qed

lemma singleDetect_arrays_ok: "arrays_ok (fst sw) \<Longrightarrow> arrays_ok (fst (singleDetect sw))"
  by (cases sw) (simp add: singleDetect_def analogRead_def ProcessSample_arrays_ok)

lemma detect_body_arrays_ok: "arrays_ok (fst sw) \<Longrightarrow> arrays_ok (fst (detect_body i sw))"
  using singleDetect_arrays_ok [of sw]
  by (cases "singleDetect sw") (simp add: detect_body_def)

lemma fold_detect_body_arrays_ok:
  "arrays_ok (fst sw) \<Longrightarrow> arrays_ok (fst (fold detect_body xs sw))"
  by (induction xs arbitrary: sw) (simp_all add: detect_body_arrays_ok)

lemma fold_singleDetect_arrays_ok:
  "arrays_ok (fst sw) \<Longrightarrow> arrays_ok (fst (fold (\<lambda>j. singleDetect) xs sw))"
  by (induction xs arbitrary: sw) (simp_all add: singleDetect_arrays_ok)

lemma sampled_frame:
  "same_config st (fst (sampled (st, w))) \<and>
   adc_in (snd (sampled (st, w))) = adc_in w \<and>
   clock_in (snd (sampled (st, w))) = clock_in w \<and>
   clock_reads (snd (sampled (st, w))) = Suc (clock_reads w) \<and>
   adc_reads (snd (sampled (st, w))) = adc_reads w + nat (sint (iSamplesCount st))"
  using fold_detect_body_frame
    [of st "[0..<nat (sint (iSamplesCount st))]" "w\<lparr>clock_reads := Suc (clock_reads w)\<rparr>"]
  by (simp add: sampled_def same_streams_def)

lemma detect_unfold:
  "detect pM magnitude (st, w) =
     (case uint32_of_float (measured_frequence (elapsed w) (iSamplesCount st)) of
        None \<Rightarrow> Inl UndefinedConversion
      | Some rf \<Rightarrow>
          Inr (fst (calculateMeasurement pM magnitude
                      ((fst (sampled (st, w)))\<lparr>iRealFrequence := rf\<rparr>)),
               fst (snd (calculateMeasurement pM magnitude
                      ((fst (sampled (st, w)))\<lparr>iRealFrequence := rf\<rparr>))),
               ResetDTMF ((fst (sampled (st, w)))\<lparr>iRealFrequence := rf\<rparr>),
               (snd (sampled (st, w)))\<lparr>clock_reads := Suc (Suc (clock_reads w))\<rparr>))"
proof -
  obtain st1 w2 where s: "sampled (st, w) = (st1, w2)"
    by (cases "sampled (st, w)")
  from sampled_frame [of st w] s
  have f: "iSamplesCount st1 = iSamplesCount st" "clock_in w2 = clock_in w"
    "clock_reads w2 = Suc (clock_reads w)"
    by (simp_all add: same_config_def)
  from s [unfolded sampled_def] f show ?thesis
    by (simp add: detect_def millis_def Let_def elapsed_def s case_prod_beta
        calculateMeasurement_state split: option.splits)
qed

section \<open>The per-sample update\<close>

text \<open>
  C1.  One call of ProcessSample replaces, for every tone i, Q2[i] by the old Q1[i] and
  Q1[i] by coeff[i] * Q1[i] - Q2[i] + (sample - adcCentre), computed from the old values
  of that tone alone; nothing else of the engine changes.
\<close>

theorem ProcessSample_update:
  assumes "arrays_ok st"
  shows "ProcessSample sample st =
     st\<lparr>afQ2 := afQ1 st,
        afQ1 := map (\<lambda>i. fadd (fsub (fmul (afToneCoeff st ! i) (afQ1 st ! i)) (afQ2 st ! i))
                         (float_of_int (sint sample - uint (iAdcCentre st)))) [0..<TONES]\<rparr>"
  using assms by (rule ProcessSample_closed)

theorem ProcessSample_update_witness:
  "arrays_ok engine_A \<and>
   ProcessSample 5 engine_A =
     engine_A\<lparr>afQ2 := [Fin 1, Fin 1, Fin 1, Fin 1, Fin 2, Fin 2, Fin 2, Fin 2],
              afQ1 := [Fin 4, Fin 4, Fin 6, Fin 6, Fin 13, Fin 14, Fin 17, Fin 18]\<rparr>"
proof -
  have ok: "arrays_ok engine_A"
    by (simp add: arrays_ok_def engine_A_def TONES_def)
  have up: "[0..<TONES] = [0, 1, 2, 3, 4, 5, 6, 7]"
    by (simp add: TONES_def upt_rec)
  show ?thesis
    using ProcessSample_update [OF ok, of 5] ok
    by (simp add: up) (simp add: engine_A_def float_of_int_def fsub_def)
qed

section \<open>Magnitudes\<close>

text \<open>
  C2.  The magnitude that calculateMeasurement computes for tone i is
  sqrt (Q1[i] * Q1[i] + Q2[i] * Q2[i] - coeff[i] * Q1[i] * Q2[i]), for every tone; a
  buffer the caller passes receives exactly these TONES values in its first TONES
  elements, and a null pointer receives nothing.
\<close>

theorem calculateMeasurement_magnitudes:
  "fst (measure_loop (replicate TONES (Fin 0)) st) =
     map (\<lambda>i. fsqrt (fsub (fadd (fmul (afQ1 st ! i) (afQ1 st ! i))
                                (fmul (afQ2 st ! i) (afQ2 st ! i)))
                          (fmul (fmul (afToneCoeff st ! i) (afQ1 st ! i)) (afQ2 st ! i))))
       [0..<TONES]
   \<and> fst (snd (calculateMeasurement (Some buf) magnitude st)) =
       Some (fst (measure_loop (replicate TONES (Fin 0)) st) @ drop TONES buf)
   \<and> fst (snd (calculateMeasurement None magnitude st)) = None"
  by (simp add: measure_loop_closed calculateMeasurement_def Let_def memcpy_floats_def
      magnitude_of_def)

section \<open>Resetting the resonators\<close>

text \<open>
  C9.  After calculateMeasurement, and so after every detect that returns, every
  Q1[i] and Q2[i] is zero, whatever the samples of the block were; resetting a second
  time changes nothing.
\<close>

theorem resonators_zero_after_block:
  assumes "arrays_ok st"
  shows "afQ1 (snd (snd (calculateMeasurement pRet magnitude st))) = replicate TONES (Fin 0)
       \<and> afQ2 (snd (snd (calculateMeasurement pRet magnitude st))) = replicate TONES (Fin 0)
       \<and> (\<forall>dtmf buf st' w'. detect pRet magnitude (st, w) = Inr (dtmf, buf, st', w') \<longrightarrow>
            afQ1 st' = replicate TONES (Fin 0) \<and> afQ2 st' = replicate TONES (Fin 0))
       \<and> ResetDTMF (ResetDTMF st) = ResetDTMF st"
proof -
  have a: "arrays_ok (fst (sampled (st, w)))"
    using assms by (simp add: sampled_def fold_detect_body_arrays_ok)
  have b: "arrays_ok ((fst (sampled (st, w)))\<lparr>iRealFrequence := rf\<rparr>)" for rf
    using a by (simp add: arrays_ok_def)
  have c: "arrays_ok (ResetDTMF st)"
    using assms by (rule ResetDTMF_arrays_ok)
  have "ResetDTMF (ResetDTMF st) = ResetDTMF st"
    by (simp add: ResetDTMF_closed [OF c]) (simp add: ResetDTMF_closed [OF assms])
  moreover have "afQ1 (ResetDTMF st) = replicate TONES (Fin 0)"
    "afQ2 (ResetDTMF st) = replicate TONES (Fin 0)"
    by (simp_all add: ResetDTMF_closed [OF assms])
  moreover have "afQ1 st' = replicate TONES (Fin 0) \<and> afQ2 st' = replicate TONES (Fin 0)"
    if "detect pRet magnitude (st, w) = Inr (dtmf, buf, st', w')" for dtmf buf st' w'
    using that by (auto simp: detect_unfold ResetDTMF_closed [OF b] split: option.splits)
  ultimately show ?thesis
    by (simp add: calculateMeasurement_state)
qed

lemma rnd32_milli: "rnd32 (1 / 1000) = 8589935 / 8589934592"
  using rnd32_eval_down [of "1 / 1000" 10 8589935] by simp

lemma rnd32_milli_half: "rnd32 (8589935 / 17179869184) = 8589935 / 17179869184"
  using rnd32_eval_down [of "8589935 / 17179869184" 11 8589935] by simp

lemma rnd32_freq_1_2: "rnd32 (17179869184 / 8589935) = 16383999 / 8192"
  using rnd32_eval_up [of 10 "17179869184 / 8589935" 16383999] by simp

lemma measured_frequence_1_2: "uint32_of_float (measured_frequence 1 2) = Some 1999"
  by (simp add: measured_frequence_def uint32_of_float_def float_of_int_def trunc_def
      rnd32_milli rnd32_milli_half rnd32_freq_1_2)

theorem resonators_zero_after_block_witness:
  "arrays_ok engine_A \<and>
   afQ1 (snd (snd (calculateMeasurement None (Fin (- 1)) engine_A))) = replicate TONES (Fin 0) \<and>
   afQ2 (snd (snd (calculateMeasurement None (Fin (- 1)) engine_A))) = replicate TONES (Fin 0) \<and>
   (case detect None (Fin (- 1)) (engine_A, world_A) of
      Inl e \<Rightarrow> False
    | Inr r \<Rightarrow> afQ1 (fst (snd (snd r))) = replicate TONES (Fin 0) \<and>
              afQ2 (fst (snd (snd r))) = replicate TONES (Fin 0)) \<and>
   ResetDTMF (ResetDTMF engine_A) = ResetDTMF engine_A"
proof -
  have ok: "arrays_ok engine_A"
    by (simp add: arrays_ok_def engine_A_def TONES_def)
  have el: "elapsed world_A = 1" "iSamplesCount engine_A = 2"
    by (simp_all add: elapsed_def world_A_def engine_A_def)
  obtain r where r: "detect None (Fin (- 1)) (engine_A, world_A) = Inr r"
    by (simp add: detect_unfold el measured_frequence_1_2)
  obtain dtmf buf st' w' where p: "r = (dtmf, buf, st', w')"
    by (metis prod_cases4)
  from resonators_zero_after_block [OF ok, of None "Fin (- 1)" world_A] r p ok
  show ?thesis by simp
qed

section \<open>The threshold\<close>

text \<open>
  C10.  The bit mask, and the magnitudes handed to the caller, are the same for any two
  values of the base magnitude: the bound maxMag, three times the base magnitude, is
  computed and never used, in auto mode and with a threshold given.
\<close>

theorem calculateMeasurement_ignores_base:
  "fst (calculateMeasurement pRet magnitude (st\<lparr>fBaseMagnitude := b1\<rparr>)) =
   fst (calculateMeasurement pRet magnitude (st\<lparr>fBaseMagnitude := b2\<rparr>))
   \<and> fst (snd (calculateMeasurement pRet magnitude (st\<lparr>fBaseMagnitude := b1\<rparr>))) =
     fst (snd (calculateMeasurement pRet magnitude (st\<lparr>fBaseMagnitude := b2\<rparr>)))"
  by (simp add: measure_loop_closed calculateMeasurement_def Let_def)

lemma flag_prefix:
  "bit (fold (flag_body mags thr) [0..<k] 0) i \<longleftrightarrow> i < k \<and> i < 8 \<and> fless thr (mags ! i)"
proof (induction k)
  case 0
  show ?case by simp
next
  case (Suc k)
  show ?case
    using Suc
    by (auto simp: flag_body_def bit_or_iff bit_push_bit_iff bit_1_iff bit_exp_iff less_Suc_eq
        dest: bit_imp_le_length)
qed

lemma flag_loop_bit:
  "bit (flag_loop mags thr) i \<longleftrightarrow> i < TONES \<and> fless thr (mags ! i)"
  by (auto simp: flag_loop_def flag_prefix TONES_def)

lemma fold_fadd_bounds:
  assumes m: "0 < m"
  shows "\<exists>s. fold (\<lambda>i b. fadd b (Fin m)) [0..<k] (Fin 0) = Fin s \<and>
             real k * m * (1 - 1 / 2 ^ 24) ^ k \<le> s \<and> s \<le> real k * m * (1 + 1 / 2 ^ 24) ^ k"
proof (induction k)
  case 0
  show ?case by simp
next
  case (Suc k)
  define L :: real where "L = 1 - 1 / 2 ^ 24"
  define U :: real where "U = 1 + 1 / 2 ^ 24"
  have L: "0 \<le> L" "L \<le> 1" and U: "0 \<le> U" "1 \<le> U"
    by (simp_all add: L_def U_def)
  from Suc obtain s where s: "fold (\<lambda>i b. fadd b (Fin m)) [0..<k] (Fin 0) = Fin s"
    and lo: "real k * m * L ^ k \<le> s" and hi: "s \<le> real k * m * U ^ k"
    unfolding L_def U_def by blast
  have "0 \<le> real k * m * L ^ k"
    using m L by simp
  with lo have s0: "0 \<le> s" by linarith
  with m have sm: "0 \<le> s + m" by simp
  have r: "(s + m) * L \<le> rnd32 (s + m)" "rnd32 (s + m) \<le> (s + m) * U"
    using rnd32_bounds [OF sm] by (simp_all add: L_def U_def)
  have "L ^ k \<le> 1" using L by (intro power_le_one)
  then have "m * L ^ k \<le> m * 1"
    using m by (intro mult_left_mono) simp_all
  moreover have "real (Suc k) * m * L ^ k = real k * m * L ^ k + m * L ^ k"
    by (simp add: algebra_simps)
  ultimately have "real (Suc k) * m * L ^ k \<le> s + m"
    using lo by linarith
  then have "real (Suc k) * m * L ^ k * L \<le> (s + m) * L"
    using L by (intro mult_right_mono)
  moreover have "real (Suc k) * m * L ^ Suc k = real (Suc k) * m * L ^ k * L"
    by simp
  ultimately have 1: "real (Suc k) * m * L ^ Suc k \<le> rnd32 (s + m)"
    using r by linarith
  have "1 \<le> U ^ k" using U by (intro one_le_power)
  then have "m * 1 \<le> m * U ^ k"
    using m by (intro mult_left_mono) simp_all
  moreover have "real (Suc k) * m * U ^ k = real k * m * U ^ k + m * U ^ k"
    by (simp add: algebra_simps)
  ultimately have "s + m \<le> real (Suc k) * m * U ^ k"
    using hi by linarith
  then have "(s + m) * U \<le> real (Suc k) * m * U ^ k * U"
    using U by (intro mult_right_mono)
  moreover have "real (Suc k) * m * U ^ Suc k = real (Suc k) * m * U ^ k * U"
    by simp
  ultimately have 2: "rnd32 (s + m) \<le> real (Suc k) * m * U ^ Suc k"
    using r by linarith
  have "fold (\<lambda>i b. fadd b (Fin m)) [0..<Suc k] (Fin 0) = Fin (rnd32 (s + m))"
    by (simp add: s)
  with 1 2 show ?case
    unfolding L_def U_def by blast
qed

lemma fold_fadd_PInf:
  "fold (\<lambda>i b. fadd b PInf) [0..<Suc k] (Fin a) = PInf"
  by (induction k) simp_all

lemma fold_cong_upt:
  "(\<And>i. i < k \<Longrightarrow> f i = g i) \<Longrightarrow> fold f [0..<k] s = fold g [0..<k] s"
  by (rule fold_cong) simp_all

lemma TONES_Suc: "TONES = Suc 7"
  by (simp add: TONES_def)

lemma fold_fadd_PInf_TONES: "fold (\<lambda>i b. fadd b PInf) [0..<TONES] (Fin a) = PInf"
  unfolding TONES_Suc by (rule fold_fadd_PInf)

lemma real_TONES: "real TONES = 8"
  by (simp add: TONES_def)

text \<open>
  Eight equal magnitudes m: the sum, its eighth and the double of that are rounded ten
  times in all, so the threshold is 2 * m up to ten roundings.
\<close>

lemma resolve_auto_Fin:
  assumes m: "0 < m" and auto: "fless magnitude (Fin 0)"
  shows "\<exists>t. resolve_magnitude (fold (\<lambda>i b. fadd b (Fin m)) [0..<TONES] (Fin 0)) magnitude =
               Fin t \<and> \<bar>t - 2 * m\<bar> \<le> m / 2 ^ 19"
proof -
  obtain s where s: "fold (\<lambda>i b. fadd b (Fin m)) [0..<TONES] (Fin 0) = Fin s"
    and lo: "real TONES * m * (1 - 1 / 2 ^ 24) ^ TONES \<le> s"
    and hi: "s \<le> real TONES * m * (1 + 1 / 2 ^ 24) ^ TONES"
    using fold_fadd_bounds [OF m, of TONES] by blast
  have lo8: "8 * m * (1 - 8 / 2 ^ 24) \<le> s"
  proof -
    have "(1 - 8 / 2 ^ 24 :: real) \<le> (1 - 1 / 2 ^ 24) ^ 8"
      by (simp add: power_divide)
    then have "8 * m * (1 - 8 / 2 ^ 24) \<le> 8 * m * (1 - 1 / 2 ^ 24) ^ 8"
      using m by (intro mult_left_mono) simp_all
    with lo show ?thesis by (simp add: TONES_def)
  qed
  have hi8: "s \<le> 8 * m * (1 + 9 / 2 ^ 24)"
  proof -
    have "(1 + 1 / 2 ^ 24) ^ 8 \<le> (1 + 9 / 2 ^ 24 :: real)"
      by (simp add: power_divide)
    then have "8 * m * (1 + 1 / 2 ^ 24) ^ 8 \<le> 8 * m * (1 + 9 / 2 ^ 24)"
      using m by (intro mult_left_mono) simp_all
    with hi show ?thesis by (simp add: TONES_def)
  qed
  have s0: "0 \<le> s / 8" using lo8 m by simp
  define d where "d = rnd32 (s / 8)"
  have d: "s / 8 * (1 - 1 / 2 ^ 24) \<le> d" "d \<le> s / 8 * (1 + 1 / 2 ^ 24)"
    unfolding d_def using rnd32_bounds [OF s0] by simp_all
  have d0: "0 \<le> d * 2" unfolding d_def using rnd32_nonneg [OF s0] by simp
  define t where "t = rnd32 (d * 2)"
  have t: "d * 2 * (1 - 1 / 2 ^ 24) \<le> t" "t \<le> d * 2 * (1 + 1 / 2 ^ 24)"
    unfolding t_def using rnd32_bounds [OF d0] by simp_all
  have dlo: "m * (1 - 10 / 2 ^ 24) \<le> d"
  proof -
    have "m * ((1 - 8 / 2 ^ 24) * (1 - 1 / 2 ^ 24)) \<le> s / 8 * (1 - 1 / 2 ^ 24)"
      using lo8 by simp
    moreover have "m * (1 - 10 / 2 ^ 24) \<le> m * ((1 - 8 / 2 ^ 24) * (1 - 1 / 2 ^ 24))"
      using m by (intro mult_left_mono) simp_all
    ultimately show ?thesis using d by linarith
  qed
  have dhi: "d \<le> m * (1 + 11 / 2 ^ 24)"
  proof -
    have "s / 8 * (1 + 1 / 2 ^ 24) \<le> m * ((1 + 9 / 2 ^ 24) * (1 + 1 / 2 ^ 24))"
      using hi8 by simp
    moreover have "m * ((1 + 9 / 2 ^ 24) * (1 + 1 / 2 ^ 24)) \<le> m * (1 + 11 / 2 ^ 24)"
      using m by (intro mult_left_mono) simp_all
    ultimately show ?thesis using d by linarith
  qed
  have tlo: "2 * m * (1 - 12 / 2 ^ 24) \<le> t"
  proof -
    have "m * ((1 - 10 / 2 ^ 24) * (2 * (1 - 1 / 2 ^ 24))) \<le> d * 2 * (1 - 1 / 2 ^ 24)"
      using dlo by simp
    moreover have "2 * m * (1 - 12 / 2 ^ 24) \<le> m * ((1 - 10 / 2 ^ 24) * (2 * (1 - 1 / 2 ^ 24)))"
      using m by simp
    ultimately show ?thesis using t by linarith
  qed
  have thi: "t \<le> 2 * m * (1 + 13 / 2 ^ 24)"
  proof -
    have "d * 2 * (1 + 1 / 2 ^ 24) \<le> m * ((1 + 11 / 2 ^ 24) * (2 * (1 + 1 / 2 ^ 24)))"
      using dhi by simp
    moreover have "m * ((1 + 11 / 2 ^ 24) * (2 * (1 + 1 / 2 ^ 24))) \<le> 2 * m * (1 + 13 / 2 ^ 24)"
      using m by simp
    ultimately show ?thesis using t by linarith
  qed
  have "2 * m - m / 2 ^ 19 \<le> t" "t \<le> 2 * m + m / 2 ^ 19"
    using tlo thi m by (simp_all add: algebra_simps)
  then have "\<bar>t - 2 * m\<bar> \<le> m / 2 ^ 19"
    by (simp only: abs_le_iff) linarith
  moreover have "resolve_magnitude (fold (\<lambda>i b. fadd b (Fin m)) [0..<TONES] (Fin 0)) magnitude = Fin t"
    using auto by (simp add: s resolve_magnitude_def float_of_int_def real_TONES t_def d_def)
  ultimately show ?thesis by blast
qed

lemma resolve_auto_PInf:
  "fless magnitude (Fin 0) \<Longrightarrow>
   resolve_magnitude (fold (\<lambda>i b. fadd b PInf) [0..<TONES] (Fin 0)) magnitude = PInf"
  by (simp add: fold_fadd_PInf_TONES resolve_magnitude_def float_of_int_def real_TONES)

lemma measure_loop_mid:
  assumes "\<forall>i<TONES. magnitude_of st i = M"
  shows "fst (snd (measure_loop (replicate TONES (Fin 0)) st)) =
         fold (\<lambda>i b. fadd b M) [0..<TONES] (Fin 0)"
proof -
  have cl: "measure_loop (replicate TONES (Fin 0)) st =
     (map (magnitude_of st) [0..<TONES],
      fold (\<lambda>i b. fadd b (magnitude_of st i)) [0..<TONES] (Fin 0),
      fold (\<lambda>i m. if fless m (magnitude_of st i) then magnitude_of st i else m) [0..<TONES]
        (fmul (fBaseMagnitude st) (Fin 3)))"
    by (rule measure_loop_closed) simp
  have "fold (\<lambda>i b. fadd b (magnitude_of st i)) [0..<TONES] (Fin 0) =
        fold (\<lambda>i b. fadd b M) [0..<TONES] (Fin 0)"
    using assms by (intro fold_cong_upt) simp
  then show ?thesis
    by (simp only: cl fst_conv snd_conv)
qed

lemma calculateMeasurement_bit:
  "bit (fst (calculateMeasurement pRet magnitude st)) i \<longleftrightarrow>
     i < TONES \<and>
     fless (resolve_magnitude (fst (snd (measure_loop (replicate TONES (Fin 0)) st))) magnitude)
       (magnitude_of st i)"
proof -
  have cl: "measure_loop (replicate TONES (Fin 0)) st =
     (map (magnitude_of st) [0..<TONES],
      fold (\<lambda>i b. fadd b (magnitude_of st i)) [0..<TONES] (Fin 0),
      fold (\<lambda>i m. if fless m (magnitude_of st i) then magnitude_of st i else m) [0..<TONES]
        (fmul (fBaseMagnitude st) (Fin 3)))"
    by (rule measure_loop_closed) simp
  have "fst (calculateMeasurement pRet magnitude st) =
        flag_loop (map (magnitude_of st) [0..<TONES])
          (resolve_magnitude (fst (snd (measure_loop (replicate TONES (Fin 0)) st))) magnitude)"
    by (simp add: calculateMeasurement_def cl Let_def)
  then show ?thesis
    by (auto simp: flag_loop_bit)
qed

text \<open>
  C3, amended.  Bit i of the mask is set exactly when magnitude i is greater than the
  threshold in use, which is the argument itself unless that is negative.  When the
  TONES magnitudes of a block are all equal to one M greater than zero and the argument
  is negative, the mask is 0.  The threshold is then 2 * M up to the roundings of the
  sum, of its division by TONES and of the doubling, and not 2 * M itself: for M a normal
  binary32 number whose eightfold sum does not overflow it differs from 2 * M by at most
  M / 2 ^ 19.
\<close>

theorem auto_threshold_neutral:
  "(\<forall>i. bit (fst (calculateMeasurement pRet magnitude st)) i \<longleftrightarrow>
         i < TONES \<and>
         fless (resolve_magnitude (fst (snd (measure_loop (replicate TONES (Fin 0)) st)))
                  magnitude)
           (magnitude_of st i))
   \<and> (\<not> fless magnitude (Fin 0) \<longrightarrow>
        resolve_magnitude (fst (snd (measure_loop (replicate TONES (Fin 0)) st))) magnitude
          = magnitude)
   \<and> ((\<forall>i<TONES. magnitude_of st i = M) \<and> fless (Fin 0) M \<and> fless magnitude (Fin 0) \<longrightarrow>
        fst (calculateMeasurement pRet magnitude st) = 0)
   \<and> ((\<forall>i<TONES. magnitude_of st i = Fin m) \<and> 1 / 2 ^ 126 \<le> m \<and> m \<le> 2 ^ 124 \<and>
       fless magnitude (Fin 0) \<longrightarrow>
        (\<exists>t. resolve_magnitude (fst (snd (measure_loop (replicate TONES (Fin 0)) st)))
                magnitude = Fin t
              \<and> \<bar>t - 2 * m\<bar> \<le> m / 2 ^ 19))"
proof -
  let ?thr = "resolve_magnitude (fst (snd (measure_loop (replicate TONES (Fin 0)) st))) magnitude"
  have 1: "\<forall>i. bit (fst (calculateMeasurement pRet magnitude st)) i \<longleftrightarrow>
             i < TONES \<and> fless ?thr (magnitude_of st i)"
    by (simp add: calculateMeasurement_bit)
  have 2: "\<not> fless magnitude (Fin 0) \<longrightarrow> ?thr = magnitude"
    by (simp add: resolve_magnitude_def)
  have 3: "fst (calculateMeasurement pRet magnitude st) = 0"
    if eq: "\<forall>i<TONES. magnitude_of st i = M" and pos: "fless (Fin 0) M"
      and auto: "fless magnitude (Fin 0)"
  proof -
    have mid: "fst (snd (measure_loop (replicate TONES (Fin 0)) st)) =
               fold (\<lambda>i b. fadd b M) [0..<TONES] (Fin 0)"
      using eq by (rule measure_loop_mid)
    have thr: "\<not> fless ?thr M"
    proof (cases M)
      case (Fin m)
      with pos have m: "0 < m" by simp
      from resolve_auto_Fin [OF m auto] obtain t
        where t: "resolve_magnitude (fold (\<lambda>i b. fadd b (Fin m)) [0..<TONES] (Fin 0)) magnitude
                    = Fin t"
          and c: "\<bar>t - 2 * m\<bar> \<le> m / 2 ^ 19"
        by blast
      have "m / 2 ^ 19 \<le> m" using m by (simp add: field_simps)
      with c have "m \<le> t" by linarith
      with Fin t show ?thesis by (simp add: mid)
    next
      case PInf
      with auto show ?thesis
        by (simp add: mid resolve_auto_PInf)
    next
      case NInf
      with pos show ?thesis by simp
    next
      case NaN
      with pos show ?thesis by simp
    qed
    have "\<not> bit (fst (calculateMeasurement pRet magnitude st)) i" for i
      using thr eq by (auto simp: calculateMeasurement_bit)
    then show ?thesis
      by (simp add: bit_eq_iff)
  qed
  have 4: "\<exists>t. ?thr = Fin t \<and> \<bar>t - 2 * m\<bar> \<le> m / 2 ^ 19"
    if eq: "\<forall>i<TONES. magnitude_of st i = Fin m" and lo: "1 / 2 ^ 126 \<le> m"
      and auto: "fless magnitude (Fin 0)"
  proof -
    have "(0::real) < 1 / 2 ^ 126" by simp
    with lo have m: "0 < m" by linarith
    show ?thesis
      using resolve_auto_Fin [OF m auto] by (simp only: measure_loop_mid [OF eq])
  qed
  from 1 2 3 4 show ?thesis by blast
qed

lemma magnitude_of_engine_B: "i < TONES \<Longrightarrow> magnitude_of engine_B i = Fin 1"
  by (simp add: magnitude_of_def engine_B_def TONES_def fsub_def)

lemma magnitudes_engine_A:
  "map (magnitude_of engine_A) [0..<TONES] = [Fin 1, Fin 0, Fin 1, NaN, Fin 2, NaN, Fin 2, NaN]"
  by (simp add: magnitude_of_def engine_A_def TONES_def fsub_def upt_rec)

theorem auto_threshold_neutral_witness:
  "fless (Fin 0) (Fin 1) \<and> fless (Fin (- 1)) (Fin 0) \<and> 1 / 2 ^ 126 \<le> (1::real) \<and>
   (1::real) \<le> 2 ^ 124 \<and>
   map (magnitude_of engine_B) [0..<TONES] = replicate TONES (Fin 1) \<and>
   fst (calculateMeasurement None (Fin (- 1)) engine_B) = 0 \<and>
   (\<exists>t. resolve_magnitude (fst (snd (measure_loop (replicate TONES (Fin 0)) engine_B)))
           (Fin (- 1)) = Fin t
         \<and> \<bar>t - 2 * 1\<bar> \<le> 1 / 2 ^ 19) \<and>
   \<not> fless (Fin (3 / 2)) (Fin 0) \<and>
   resolve_magnitude (fst (snd (measure_loop (replicate TONES (Fin 0)) engine_A))) (Fin (3 / 2))
     = Fin (3 / 2) \<and>
   bit (fst (calculateMeasurement None (Fin (3 / 2)) engine_A)) 4 \<and>
   \<not> bit (fst (calculateMeasurement None (Fin (3 / 2)) engine_A)) 0"
proof -
  have up: "[0..<TONES] = [0, 1, 2, 3, 4, 5, 6, 7]"
    by (simp add: TONES_def upt_rec)
  have b: "\<forall>i<TONES. magnitude_of engine_B i = Fin 1"
    by (simp add: magnitude_of_engine_B)
  have bm: "map (magnitude_of engine_B) [0..<TONES] = replicate TONES (Fin 1)"
    by (rule nth_equalityI) (simp_all add: magnitude_of_engine_B)
  have a: "magnitude_of engine_A 4 = Fin 2" "magnitude_of engine_A 0 = Fin 1"
    using magnitudes_engine_A by (simp_all add: up)
  have t: "(4::nat) < TONES" "(0::nat) < TONES"
    by (simp_all add: TONES_def)
  from auto_threshold_neutral [of None "Fin (- 1)" engine_B "Fin 1" 1]
       auto_threshold_neutral [of None "Fin (3 / 2)" engine_A "Fin 1" 1] b bm a t
  show ?thesis by simp
qed

lemma rnd32_MM: "rnd32 125099997105721 = 125099998969856"
  using rnd32_eval_up [of 46 "125099997105721" 14913082] by simp

lemma rnd32_MM_fix: "rnd32 125099998969856 = 125099998969856"
  using rnd32_eval_up [of 46 "125099998969856" 14913082] by simp

lemma rnd32_sqrt_MM: "rnd32 (sqrt 125099998969856) = 11184811"
proof -
  have "(11184811 - 1 / 2 :: real)\<^sup>2 < 125099998969856"
    by (simp add: power2_eq_square)
  then have lo: "11184811 - 1 / 2 < sqrt 125099998969856"
    by (rule real_less_rsqrt)
  have "(125099998969856 :: real) < (11184811 + 1 / 2)\<^sup>2"
    by (simp add: power2_eq_square)
  then have hi: "sqrt 125099998969856 < 11184811 + 1 / 2"
    by (intro real_less_lsqrt) simp_all
  have a: "2 ^ 23 \<le> \<bar>sqrt 125099998969856\<bar>" "\<bar>sqrt 125099998969856\<bar> < 2 * 2 ^ 23"
    using lo hi by simp_all
  have "sqrt 125099998969856 * 2 ^ 23 / 2 ^ 23 = sqrt 125099998969856"
    by simp
  then have b: "\<bar>sqrt 125099998969856 * 2 ^ 23 / 2 ^ 23 - of_int 11184811\<bar> < 1 / 2"
    using lo hi by (simp only: abs_less_iff) simp
  have "rnd32 (sqrt 125099998969856) = of_int 11184811 * 2 ^ 23 / 2 ^ 23"
    using a b by (rule rnd32_eval_up)
  then show ?thesis by simp
qed

lemma rnd32_sums:
  "rnd32 22369622 = 22369622" "rnd32 33554433 = 33554432" "rnd32 44739243 = 44739244"
  "rnd32 55924055 = 55924056" "rnd32 67108867 = 67108864" "rnd32 78293675 = 78293672"
  "rnd32 89478483 = 89478480" "rnd32 22369620 = 22369620"
  using rnd32_eval_up [of 24 "22369622" 11184811] rnd32_eval_up [of 25 "33554433" 8388608]
    rnd32_eval_up [of 25 "44739243" 11184811] rnd32_eval_up [of 25 "55924055" 13981014]
    rnd32_eval_up [of 26 "67108867" 8388608] rnd32_eval_up [of 26 "78293675" 9786709]
    rnd32_eval_up [of 26 "89478483" 11184810] rnd32_eval_up [of 24 "22369620" 11184810]
  by simp_all

lemma magnitude_of_engine_M: "i < TONES \<Longrightarrow> magnitude_of engine_M i = Fin 11184811"
  by (simp add: magnitude_of_def engine_M_def TONES_def fsub_def rnd32_MM rnd32_MM_fix
      rnd32_sqrt_MM)

text \<open>
  C3 as stated fails: with eight magnitudes of 11184811 the sum is rounded on its way to
  89478480 instead of 89478488, and the threshold is 22369620, where twice the magnitude
  is 22369622.  The mask is 0 all the same.
\<close>

theorem auto_threshold_below_twice:
  "map (magnitude_of engine_M) [0..<TONES] = replicate TONES (Fin 11184811)
   \<and> resolve_magnitude (fst (snd (measure_loop (replicate TONES (Fin 0)) engine_M))) (Fin (- 1))
       = Fin 22369620
   \<and> fmul (Fin 2) (Fin 11184811) = Fin 22369622
   \<and> fst (calculateMeasurement None (Fin (- 1)) engine_M) = 0"
proof -
  have eq: "\<forall>i<TONES. magnitude_of engine_M i = Fin 11184811"
    by (simp add: magnitude_of_engine_M)
  have 1: "map (magnitude_of engine_M) [0..<TONES] = replicate TONES (Fin 11184811)"
    by (rule nth_equalityI) (simp_all add: magnitude_of_engine_M)
  have "fold (\<lambda>i b. fadd b (Fin 11184811)) [0..<TONES] (Fin 0) = Fin 89478480"
    by (simp add: TONES_def upt_rec rnd32_sums)
  then have 2: "resolve_magnitude (fst (snd (measure_loop (replicate TONES (Fin 0)) engine_M)))
                  (Fin (- 1)) = Fin 22369620"
    by (simp add: measure_loop_mid [OF eq] resolve_magnitude_def float_of_int_def real_TONES
        rnd32_sums)
  have 3: "fmul (Fin 2) (Fin 11184811) = Fin 22369622"
    by (simp add: rnd32_sums)
  have "\<not> bit (fst (calculateMeasurement None (Fin (- 1)) engine_M)) i" for i
    by (auto simp: calculateMeasurement_bit 2 magnitude_of_engine_M)
  then have 4: "fst (calculateMeasurement None (Fin (- 1)) engine_M) = 0"
    by (simp add: bit_eq_iff)
  from 1 2 3 4 show ?thesis by simp
qed

section \<open>The symbol table\<close>

lemma tone2char_from_none:
  "(\<forall>k. j \<le> k \<and> k < TONES * 2 \<longrightarrow> M ! k \<noteq> dtmf) \<Longrightarrow> tone2char_from M C dtmf j = CHR 0x00"
proof (induction M C dtmf j rule: tone2char_from.induct)
  case (1 M C dtmf j)
  show ?case
  proof (cases "j < TONES * 2")
    case True
    with "1.prems" have ne: "dtmf \<noteq> M ! j" by auto
    from "1.prems" have "\<forall>k. Suc j \<le> k \<and> k < TONES * 2 \<longrightarrow> M ! k \<noteq> dtmf" by auto
    with "1.IH" [OF True ne] True ne show ?thesis by simp
  next
    case False
    then show ?thesis by simp
  qed
qed

lemma tone2char_from_first:
  "j \<le> k \<Longrightarrow> k < TONES * 2 \<Longrightarrow> M ! k = dtmf \<Longrightarrow>
   (\<forall>l. j \<le> l \<and> l < k \<longrightarrow> M ! l \<noteq> dtmf) \<Longrightarrow> tone2char_from M C dtmf j = C ! k"
proof (induction M C dtmf j rule: tone2char_from.induct)
  case (1 M C dtmf j)
  from "1.prems" have jlt: "j < TONES * 2" by simp
  show ?case
  proof (cases "j = k")
    case True
    with "1.prems" jlt show ?thesis by simp
  next
    case False
    with "1.prems" have ne: "dtmf \<noteq> M ! j" and le: "Suc j \<le> k" by auto
    from "1.prems" have "\<forall>l. Suc j \<le> l \<and> l < k \<longrightarrow> M ! l \<noteq> dtmf" by auto
    with "1.IH" [OF jlt ne le] "1.prems" jlt ne show ?thesis by simp
  qed
qed

text \<open>
  C8.  For a table of 2 * TONES entries in which no pattern stands for two characters,
  tone2char returns, for the pattern of every entry, the character of that entry; for
  a bit mask that is the pattern of no entry it returns the character 0.
\<close>

theorem tone2char_table:
  assumes len: "length DTMF_MAP = TONES * 2" "length DTMF_CHAR = TONES * 2"
    and functional: "\<forall>j<TONES * 2. \<forall>k<TONES * 2.
           DTMF_MAP ! j = DTMF_MAP ! k \<longrightarrow> DTMF_CHAR ! j = DTMF_CHAR ! k"
  shows "(\<forall>j<TONES * 2. tone2char DTMF_MAP DTMF_CHAR (DTMF_MAP ! j) = DTMF_CHAR ! j)
       \<and> (\<forall>dtmf. (\<forall>j<TONES * 2. DTMF_MAP ! j \<noteq> dtmf) \<longrightarrow>
            tone2char DTMF_MAP DTMF_CHAR dtmf = CHR 0x00)"
proof (intro conjI allI impI)
  fix j assume j: "j < TONES * 2"
  define k where "k = (LEAST l. DTMF_MAP ! l = DTMF_MAP ! j)"
  have k: "DTMF_MAP ! k = DTMF_MAP ! j" unfolding k_def by (rule LeastI) simp
  have kle: "k \<le> j" unfolding k_def by (rule Least_le) simp
  have first: "\<forall>l. 0 \<le> l \<and> l < k \<longrightarrow> DTMF_MAP ! l \<noteq> DTMF_MAP ! j"
    unfolding k_def using not_less_Least by blast
  from kle j have klt: "k < TONES * 2" by simp
  have "tone2char DTMF_MAP DTMF_CHAR (DTMF_MAP ! j) = DTMF_CHAR ! k"
    unfolding tone2char_def by (rule tone2char_from_first [OF _ klt k first]) simp
  also have "\<dots> = DTMF_CHAR ! j"
    using functional klt j k by blast
  finally show "tone2char DTMF_MAP DTMF_CHAR (DTMF_MAP ! j) = DTMF_CHAR ! j" .
next
  fix dtmf assume "\<forall>j<TONES * 2. DTMF_MAP ! j \<noteq> dtmf"
  then show "tone2char DTMF_MAP DTMF_CHAR dtmf = CHR 0x00"
    unfolding tone2char_def by (intro tone2char_from_none) simp
qed

lemma keypad_functional:
  "\<forall>j<TONES * 2. \<forall>k<TONES * 2.
     keypad_MAP ! j = keypad_MAP ! k \<longrightarrow> keypad_CHAR ! j = keypad_CHAR ! k"
proof -
  have d: "distinct keypad_MAP" by (simp add: keypad_MAP_def)
  have l: "length keypad_MAP = TONES * 2" by (simp add: keypad_MAP_def TONES_def)
  show ?thesis
    using d l by (auto simp: nth_eq_iff_index_eq)
qed

lemma keypad_absent:
  "d \<notin> set keypad_MAP \<Longrightarrow> \<forall>j<TONES * 2. keypad_MAP ! j \<noteq> d"
proof -
  have l: "length keypad_MAP = TONES * 2" by (simp add: keypad_MAP_def TONES_def)
  assume "d \<notin> set keypad_MAP"
  then show ?thesis using l by (metis nth_mem)
qed

theorem tone2char_table_witness:
  "length keypad_MAP = TONES * 2 \<and> length keypad_CHAR = TONES * 2 \<and>
   tone2char keypad_MAP keypad_CHAR 0x11 = CHR ''1'' \<and>
   tone2char keypad_MAP keypad_CHAR 0x28 = CHR ''0'' \<and>
   tone2char keypad_MAP keypad_CHAR 0x48 = CHR ''#'' \<and>
   tone2char keypad_MAP keypad_CHAR 0x00 = CHR 0x00 \<and>
   tone2char keypad_MAP keypad_CHAR 0x03 = CHR 0x00"
proof -
  have len: "length keypad_MAP = TONES * 2" "length keypad_CHAR = TONES * 2"
    by (simp_all add: keypad_MAP_def keypad_CHAR_def TONES_def)
  note t = tone2char_table [OF len keypad_functional]
  have a0: "(0x00 :: 8 word) \<notin> set keypad_MAP" and a3: "(0x03 :: 8 word) \<notin> set keypad_MAP"
    by (simp_all add: keypad_MAP_def)
  have "tone2char keypad_MAP keypad_CHAR (keypad_MAP ! 0) = keypad_CHAR ! 0"
    "tone2char keypad_MAP keypad_CHAR (keypad_MAP ! 9) = keypad_CHAR ! 9"
    "tone2char keypad_MAP keypad_CHAR (keypad_MAP ! 15) = keypad_CHAR ! 15"
    using t by (simp_all add: TONES_def)
  moreover have "tone2char keypad_MAP keypad_CHAR 0x00 = CHR 0x00"
    "tone2char keypad_MAP keypad_CHAR 0x03 = CHR 0x00"
    using t keypad_absent [OF a0] keypad_absent [OF a3] by blast+
  ultimately show ?thesis
    using len by (simp add: keypad_MAP_def keypad_CHAR_def)
qed

section \<open>Initialisation and the loop of begin\<close>

lemma warmed_frame:
  "same_config (st\<lparr>Pin := pin\<rparr>) (fst (warmed pin (st, w))) \<and>
   adc_in (snd (warmed pin (st, w))) = adc_in w \<and>
   clock_in (snd (warmed pin (st, w))) = clock_in w \<and>
   clock_reads (snd (warmed pin (st, w))) = Suc (clock_reads w) \<and>
   adc_reads (snd (warmed pin (st, w))) = adc_reads w + 1000"
  using fold_singleDetect_frame
    [of "st\<lparr>Pin := pin\<rparr>" "[0..<1000]" "w\<lparr>clock_reads := Suc (clock_reads w)\<rparr>"]
  by (simp add: warmed_def same_streams_def)

lemma begin_warmup_unfold:
  "begin_warmup pin maxF (st, w) =
     (case (if fless (float_of_int (uint maxF)) (host_frequence (elapsed w))
            then int_of_float (compensation_seed maxF (host_frequence (elapsed w)))
            else Some (iCompensation st)) of
        None \<Rightarrow> Inl UndefinedConversion
      | Some c \<Rightarrow>
          (case uint32_of_float (host_frequence (elapsed w)) of
             None \<Rightarrow> Inl UndefinedConversion
           | Some sf \<Rightarrow>
               Inr ((fst (warmed pin (st, w)))
                      \<lparr>iCompensation := c,
                       iAdcCentre := word_of_int (adc_in w (adc_reads w + 1000)),
                       iSamplesFrequence := sf\<rparr>,
                    (snd (warmed pin (st, w)))
                      \<lparr>clock_reads := Suc (Suc (clock_reads w)),
                       adc_reads := adc_reads w + 1001\<rparr>)))"
proof -
  obtain st2 w2 where s: "warmed pin (st, w) = (st2, w2)"
    by (cases "warmed pin (st, w)")
  from warmed_frame [of pin st w] s
  have f: "iCompensation st2 = iCompensation st" "clock_in w2 = clock_in w"
    "clock_reads w2 = Suc (clock_reads w)" "adc_in w2 = adc_in w"
    "adc_reads w2 = adc_reads w + 1000"
    by (simp_all add: same_config_def)
  from s [unfolded warmed_def] f show ?thesis
    by (simp add: begin_warmup_def millis_def Let_def elapsed_def s delay_def pinMode_def
        analogRead_def split: option.splits)
qed

lemma rate_step_unfold:
  "rate_step maxF (m, st, w) =
     (case uint32_of_float (measured_frequence (elapsed w) (iSamplesCount st)) of
        None \<Rightarrow> Inl UndefinedConversion
      | Some rf \<Rightarrow>
          Inr (memcpy_floats m
                 (map (magnitude_of (fst (sampled (st, w)))) [0..<TONES]) TONES,
               (ResetDTMF ((fst (sampled (st, w)))\<lparr>iRealFrequence := rf\<rparr>))
                 \<lparr>iCompensation := adjusted maxF rf (iCompensation st)\<rparr>,
               (snd (sampled (st, w)))\<lparr>clock_reads := Suc (Suc (clock_reads w))\<rparr>))"
proof -
  have c: "same_config st (fst (sampled (st, w)))"
    using sampled_frame [of st w] by simp
  have r: "same_config (st1\<lparr>iRealFrequence := rf\<rparr>) (ResetDTMF (st1\<lparr>iRealFrequence := rf\<rparr>))"
    for st1 rf by (rule ResetDTMF_config)
  have m: "magnitude_of (st1\<lparr>iRealFrequence := rf\<rparr>) = magnitude_of st1" for st1 rf
    by (rule ext) (simp add: magnitude_of_def)
  show ?thesis
    using c r
    by (auto simp: rate_step_def detect_unfold calculateMeasurement_def
        measure_loop_closed Let_def adjusted_def same_config_def m
        split: option.splits)
qed

lemma rate_adjust_upto_sound:
  "rate_adjust_upto n maxF s = Some r \<Longrightarrow> rate_adjust maxF s = Some r"
proof (induction n arbitrary: s)
  case 0
  then show ?case by simp
next
  case (Suc n)
  show ?case
  proof (cases "rate_step maxF s")
    case (Inl e)
    with Suc.prems have "r = Inl e" by simp
    with Inl show ?thesis
      by (subst rate_adjust.simps) simp
  next
    case (Inr s1)
    show ?thesis
    proof (cases "iRealFrequence (fst (snd s)) \<noteq> iRealFrequence (fst (snd s1))")
      case True
      with Suc.prems Inr have "rate_adjust_upto n maxF s1 = Some r" by simp
      then have "rate_adjust maxF s1 = Some r" by (rule Suc.IH)
      with True Inr show ?thesis
        by (subst rate_adjust.simps) simp
    next
      case False
      with Suc.prems Inr have "r = Inr s1" by simp
      with False Inr show ?thesis
        by (subst rate_adjust.simps) simp
    qed
  qed
qed

lemma rate_adjust_upto_complete:
  assumes "rate_adjust maxF s = Some r"
  shows "\<exists>n. rate_adjust_upto n maxF s = Some r"
  using assms
proof (rule rate_adjust.raw_induct [rotated])
  fix f :: "32 word \<Rightarrow> cfloat list \<times> PhoneDTMF \<times> world \<Rightarrow>
     (failure + (cfloat list \<times> PhoneDTMF \<times> world)) option"
  fix maxF s r
  assume IH: "\<And>m s y. f m s = Some y \<Longrightarrow> \<exists>n. rate_adjust_upto n m s = Some y"
  assume body: "(case rate_step maxF s of Inl e \<Rightarrow> Some (Inl e)
      | Inr s1 \<Rightarrow>
          if iRealFrequence (fst (snd s)) \<noteq> iRealFrequence (fst (snd s1))
          then f maxF s1 else Some (Inr s1)) = Some r"
  show "\<exists>n. rate_adjust_upto n maxF s = Some r"
  proof (cases "rate_step maxF s")
    case (Inl e)
    with body have "r = Inl e" by simp
    with Inl have "rate_adjust_upto (Suc 0) maxF s = Some r" by simp
    then show ?thesis ..
  next
    case (Inr s1)
    show ?thesis
    proof (cases "iRealFrequence (fst (snd s)) \<noteq> iRealFrequence (fst (snd s1))")
      case True
      with body Inr have "f maxF s1 = Some r" by simp
      then obtain n where "rate_adjust_upto n maxF s1 = Some r"
        using IH by blast
      with True Inr have "rate_adjust_upto (Suc n) maxF s = Some r" by simp
      then show ?thesis ..
    next
      case False
      with body Inr have "r = Inr s1" by simp
      with False Inr have "rate_adjust_upto (Suc 0) maxF s = Some r" by simp
      then show ?thesis ..
    qed
  qed
qed

lemma rate_adjust_upto_None:
  "(\<forall>n. rate_adjust_upto n maxF s = None) \<Longrightarrow> rate_adjust maxF s = None"
  using rate_adjust_upto_complete [of maxF s] by (cases "rate_adjust maxF s") auto

text \<open>
  The frequency of a block with a positive sample count and a positive elapsed time is a
  finite number that fits 32 bits, whatever the three divisions round to.
\<close>

lemma measured_chain_defined:
  fixes a b :: int
  assumes a: "0 < a" and b: "0 < b" "b < 2 ^ 15"
  shows "\<exists>v. fdiv (Fin 1) (fdiv (fdiv (Fin (rnd32 (of_int a))) (Fin 1000))
                               (Fin (rnd32 (of_int b)))) = Fin v
             \<and> 0 \<le> v \<and> v < 2 ^ 32"
proof -
  define A where "A = rnd32 (of_int a)"
  define x where "x = rnd32 (A / 1000)"
  define B where "B = rnd32 (of_int b)"
  define z where "z = x / B"
  define y where "y = rnd32 z"
  define v where "v = rnd32 (1 / y)"
  have a1: "(1::real) \<le> of_int a" using a by simp
  then have "(0::real) \<le> of_int a" by linarith
  from rnd32_coarse(1) [OF this] a1 have A: "1 / 2 \<le> A"
    unfolding A_def by linarith
  then have "0 \<le> A / 1000" by simp
  from rnd32_coarse(1) [OF this] A have x: "1 / 4000 \<le> x"
    unfolding x_def by linarith
  have b1: "(1::real) \<le> of_int b" using b by simp
  have "real_of_int b < real_of_int (2 ^ 15)"
    using b by (simp only: of_int_less_iff)
  then have b2: "real_of_int b < 32768" by simp
  have b0: "(0::real) \<le> of_int b" using b1 by linarith
  from rnd32_coarse [OF b0] b1 b2 have B: "1 / 2 \<le> B" "B \<le> 65536"
    unfolding B_def by linarith+
  have "1 / 4000 / 65536 \<le> x / B"
    using x B by (intro frac_le) simp_all
  then have xB: "1 / 262144000 \<le> z" by (simp add: z_def)
  then have "0 \<le> z" by linarith
  from rnd32_coarse(1) [OF this] xB have y: "1 / 524288000 \<le> y"
    unfolding y_def by linarith
  then have ypos: "0 < y" by linarith
  have "1 / y \<le> 1 / (1 / 524288000)"
    using y by (intro divide_left_mono) simp_all
  then have iy: "1 / y \<le> 524288000" by simp
  have iy0: "0 \<le> 1 / y" using ypos by simp
  from rnd32_coarse(2) [OF iy0] iy rnd32_nonneg [OF iy0]
  have v: "0 \<le> v" "v < 2 ^ 32"
    unfolding v_def by simp_all
  have "B \<noteq> 0" "y \<noteq> 0" using B ypos by simp_all
  then have "fdiv (Fin 1) (fdiv (fdiv (Fin A) (Fin 1000)) (Fin B)) = Fin v"
    by (simp add: x_def y_def z_def v_def)
  with v show ?thesis
    unfolding A_def B_def by blast
qed

lemma uint32_of_Fin:
  assumes "0 \<le> v" "v < 2 ^ 32"
  shows "\<exists>rf. uint32_of_float (Fin v) = Some rf"
proof -
  have "\<lfloor>v\<rfloor> < 2 ^ 32"
    using assms(2) by (simp add: floor_less_iff)
  moreover have "0 \<le> \<lfloor>v\<rfloor>"
    using assms(1) by simp
  ultimately show ?thesis
    using assms(1) by (simp add: uint32_of_float_def trunc_def)
qed

lemma uint32_of_measured:
  assumes "0 < sint n" "0 < uint t"
  shows "\<exists>rf. uint32_of_float (measured_frequence t n) = Some rf"
proof -
  have b: "sint n < 2 ^ 15"
    using sint_lt [of n] by simp
  from measured_chain_defined [OF assms(2) assms(1) b] obtain v
    where "measured_frequence t n = Fin v" and "0 \<le> v" "v < 2 ^ 32"
    unfolding measured_frequence_def float_of_int_def by blast
  with uint32_of_Fin [of v] show ?thesis by simp
qed





lemma rate_step_facts:
  assumes "rate_step maxF (m, st, w) = Inr (m', st', w')"
  shows "uint32_of_float (measured_frequence (elapsed w) (iSamplesCount st))
           = Some (iRealFrequence st')"
    and "iSamplesCount st' = iSamplesCount st"
    and "iCompensation st' = adjusted maxF (iRealFrequence st') (iCompensation st)"
    and "clock_in w' = clock_in w" and "clock_reads w' = clock_reads w + 2"
    and "adc_in w' = adc_in w"
    and "adc_reads w' = adc_reads w + nat (sint (iSamplesCount st))"
    and "m' = memcpy_floats m (map (magnitude_of (fst (sampled (st, w)))) [0..<TONES]) TONES"
proof -
  from assms obtain rf where
    rf: "uint32_of_float (measured_frequence (elapsed w) (iSamplesCount st)) = Some rf"
    and m': "m' = memcpy_floats m (map (magnitude_of (fst (sampled (st, w)))) [0..<TONES]) TONES"
    and st': "st' = (ResetDTMF ((fst (sampled (st, w)))\<lparr>iRealFrequence := rf\<rparr>))
                 \<lparr>iCompensation := adjusted maxF rf (iCompensation st)\<rparr>"
    and w': "w' = (snd (sampled (st, w)))\<lparr>clock_reads := Suc (Suc (clock_reads w))\<rparr>"
    by (auto simp: rate_step_unfold split: option.splits)
  have c: "same_config ((fst (sampled (st, w)))\<lparr>iRealFrequence := rf\<rparr>)
             (ResetDTMF ((fst (sampled (st, w)))\<lparr>iRealFrequence := rf\<rparr>))"
    by (rule ResetDTMF_config)
  have f: "same_config st (fst (sampled (st, w)))"
    using sampled_frame [of st w] by simp
  from c have r: "iRealFrequence st' = rf"
    by (simp add: st' same_config_def)
  show "uint32_of_float (measured_frequence (elapsed w) (iSamplesCount st))
           = Some (iRealFrequence st')"
    using rf r by simp
  show "iSamplesCount st' = iSamplesCount st"
    using c f by (simp add: st' same_config_def)
  show "iCompensation st' = adjusted maxF (iRealFrequence st') (iCompensation st)"
    using r by (simp add: st')
  show "clock_in w' = clock_in w" "clock_reads w' = clock_reads w + 2" "adc_in w' = adc_in w"
    "adc_reads w' = adc_reads w + nat (sint (iSamplesCount st))"
    using sampled_frame [of st w] by (simp_all add: w')
  show "m' = memcpy_floats m (map (magnitude_of (fst (sampled (st, w)))) [0..<TONES]) TONES"
    by (rule m')
qed

lemma rate_step_Inl:
  "rate_step maxF (m, st, w) = Inl e \<longleftrightarrow>
   uint32_of_float (measured_frequence (elapsed w) (iSamplesCount st)) = None"
  by (cases e) (simp add: rate_step_unfold split: option.splits)

lemma elapsed_block: "elapsed w = block_elapsed w 0"
  by (simp add: elapsed_def block_elapsed_def)

lemma uint_pos: "x \<noteq> 0 \<Longrightarrow> 0 < uint x"
proof -
  assume "x \<noteq> 0"
  then have "uint x \<noteq> 0" by (simp add: uint_0_iff)
  moreover have "0 \<le> uint x" by simp
  ultimately show ?thesis by linarith
qed

lemma rate_adjust_upto_steady:
  "block_elapsed w j = block_elapsed w (Suc j) \<Longrightarrow>
   \<exists>r. rate_adjust_upto (j + 2) maxF (m, st, w) = Some r"
proof (induction j arbitrary: m st w)
  case 0
  show ?case
  proof (cases "rate_step maxF (m, st, w)")
    case (Inl e)
    then show ?thesis by simp
  next
    case (Inr s1)
    obtain m1 st1 w1 where s1: "s1 = (m1, st1, w1)" by (cases s1)
    note f = rate_step_facts [OF Inr [unfolded s1]]
    have "elapsed w1 = elapsed w"
      using "0.prems" f(4,5) by (simp add: elapsed_def block_elapsed_def)
    with f(1,2) have rf: "uint32_of_float (measured_frequence (elapsed w1) (iSamplesCount st1))
         = Some (iRealFrequence st1)" by simp
    then obtain m2 st2 w2 where n: "rate_step maxF (m1, st1, w1) = Inr (m2, st2, w2)"
      by (cases "rate_step maxF (m1, st1, w1)") (auto simp: rate_step_Inl)
    from rate_step_facts(1) [OF n] rf have "iRealFrequence st2 = iRealFrequence st1" by simp
    with n Inr s1 show ?thesis by simp
  qed
next
  case (Suc j)
  show ?case
  proof (cases "rate_step maxF (m, st, w)")
    case (Inl e)
    then show ?thesis by simp
  next
    case (Inr s1)
    obtain m1 st1 w1 where s1: "s1 = (m1, st1, w1)" by (cases s1)
    note f = rate_step_facts [OF Inr [unfolded s1]]
    have "block_elapsed w1 j = block_elapsed w1 (Suc j)"
      using Suc.prems f(4,5) by (simp add: block_elapsed_def)
    from Suc.IH [OF this, of m1 st1] Inr s1 show ?thesis by auto
  qed
qed

lemma rate_adjust_upto_defined:
  "0 < sint (iSamplesCount st) \<Longrightarrow> (\<forall>i<n. block_elapsed w i \<noteq> 0) \<Longrightarrow>
   rate_adjust_upto n maxF (m, st, w) \<noteq> Some (Inl e)"
proof (induction n arbitrary: m st w)
  case 0
  show ?case by simp
next
  case (Suc n)
  from Suc.prems(2) have "elapsed w \<noteq> 0"
    by (simp add: elapsed_block)
  from uint32_of_measured [OF Suc.prems(1) uint_pos [OF this]]
  obtain rf where "uint32_of_float (measured_frequence (elapsed w) (iSamplesCount st)) = Some rf" ..
  then obtain m1 st1 w1 where r: "rate_step maxF (m, st, w) = Inr (m1, st1, w1)"
    by (cases "rate_step maxF (m, st, w)") (auto simp: rate_step_Inl)
  note f = rate_step_facts [OF r]
  have c: "0 < sint (iSamplesCount st1)"
    using Suc.prems(1) f(2) by simp
  have "block_elapsed w1 i = block_elapsed w (Suc i)" for i
    using f(4,5) by (simp add: block_elapsed_def)
  with Suc.prems(2) have t: "\<forall>i<n. block_elapsed w1 i \<noteq> 0"
    by simp
  from Suc.IH [OF c t, of m1] r show ?case
    by simp
qed

lemma rate_passes_forever:
  "(\<forall>k. rate_passes k maxF s \<noteq> None) \<Longrightarrow> rate_adjust_upto n maxF s = None"
proof (induction n arbitrary: s)
  case 0
  show ?case by simp
next
  case (Suc n)
  from Suc.prems have "rate_passes (Suc 0) maxF s \<noteq> None" by blast
  then obtain s1 where s1: "rate_step maxF s = Inr s1"
    and ne: "iRealFrequence (fst (snd s)) \<noteq> iRealFrequence (fst (snd s1))"
    by (auto split: sum.splits if_splits)
  have "rate_passes k maxF s1 \<noteq> None" for k
    using Suc.prems [rule_format, of "Suc k"] s1 ne by simp
  then have "rate_adjust_upto n maxF s1 = None"
    by (intro Suc.IH) simp
  with s1 ne show ?case by simp
qed

lemma rate_passes_stop:
  "rate_passes k maxF s = None \<Longrightarrow> \<exists>r. rate_adjust_upto k maxF s = Some r"
proof (induction k arbitrary: s)
  case 0
  then show ?case by simp
next
  case (Suc k)
  show ?case
  proof (cases "rate_step maxF s")
    case (Inl e)
    then show ?thesis by simp
  next
    case (Inr s1)
    show ?thesis
    proof (cases "iRealFrequence (fst (snd s)) \<noteq> iRealFrequence (fst (snd s1))")
      case True
      with Suc.prems Inr have "rate_passes k maxF s1 = None" by simp
      from Suc.IH [OF this] True Inr show ?thesis by simp
    next
      case False
      with Inr show ?thesis by simp
    qed
  qed
qed

lemma rate_adjust_None_iff:
  "rate_adjust maxF s = None \<longleftrightarrow> (\<forall>k. rate_passes k maxF s \<noteq> None)"
proof
  assume n: "rate_adjust maxF s = None"
  show "\<forall>k. rate_passes k maxF s \<noteq> None"
  proof (rule allI, rule notI)
    fix k assume "rate_passes k maxF s = None"
    from rate_passes_stop [OF this] obtain r where "rate_adjust_upto k maxF s = Some r" ..
    from rate_adjust_upto_sound [OF this] n show False by simp
  qed
next
  assume "\<forall>k. rate_passes k maxF s \<noteq> None"
  then have "\<forall>n. rate_adjust_upto n maxF s = None"
    by (simp add: rate_passes_forever)
  then show "rate_adjust maxF s = None"
    by (rule rate_adjust_upto_None)
qed

text \<open>
  C5, amended.  The do-while loop of begin has no bound on its passes, and running out
  of passes is nothing it reports: it never returns exactly when every pass measures a
  frequency other than the one stored before it.  It leaves after the first pass that
  measures the stored frequency: for a positive sample count and a clock by which no
  block up to the (j + 1)-th takes zero milliseconds, when the j-th and the (j + 1)-th
  block take the same time, the loop returns within j + 2 passes.
\<close>

theorem rate_adjust_returns_when_steady:
  "(block_elapsed w j = block_elapsed w (Suc j) \<and> 0 < sint (iSamplesCount st) \<and>
    (\<forall>i\<le>Suc j. block_elapsed w i \<noteq> 0) \<longrightarrow>
      (\<exists>s. rate_adjust_upto (j + 2) maxF (m, st, w) = Some (Inr s)
           \<and> rate_adjust maxF (m, st, w) = Some (Inr s)))
   \<and> (rate_adjust maxF (m, st, w) = None \<longleftrightarrow>
        (\<forall>k. rate_passes k maxF (m, st, w) \<noteq> None))"
proof (intro conjI impI)
  assume a: "block_elapsed w j = block_elapsed w (Suc j) \<and> 0 < sint (iSamplesCount st) \<and>
    (\<forall>i\<le>Suc j. block_elapsed w i \<noteq> 0)"
  then have steady: "block_elapsed w j = block_elapsed w (Suc j)"
    and count: "0 < sint (iSamplesCount st)"
    and ticks: "\<forall>i\<le>Suc j. block_elapsed w i \<noteq> 0"
    by simp_all
  from rate_adjust_upto_steady [OF steady] obtain r where
    r: "rate_adjust_upto (j + 2) maxF (m, st, w) = Some r" ..
  from ticks have "\<forall>i<j + 2. block_elapsed w i \<noteq> 0"
    by (simp add: less_Suc_eq_le)
  from rate_adjust_upto_defined [OF count this, of maxF m] r
  obtain s where s: "r = Inr s"
    by (cases r) auto
  from r have "rate_adjust maxF (m, st, w) = Some r"
    by (rule rate_adjust_upto_sound)
  with r s show "\<exists>s. rate_adjust_upto (j + 2) maxF (m, st, w) = Some (Inr s)
           \<and> rate_adjust maxF (m, st, w) = Some (Inr s)"
    by blast
next
  show "rate_adjust maxF (m, st, w) = None \<longleftrightarrow> (\<forall>k. rate_passes k maxF (m, st, w) \<noteq> None)"
    by (rule rate_adjust_None_iff)
qed



text \<open>The host's frequency after a warm-up that took some time is finite and positive.\<close>

lemma host_chain_bounds:
  fixes a :: int
  assumes a: "0 < a"
  shows "\<exists>h. fmul (fdiv (Fin 1000) (Fin (rnd32 (of_int a)))) (Fin 1000) = Fin h
             \<and> 0 < h \<and> h \<le> 8000000"
proof -
  define A where "A = rnd32 (of_int a)"
  define g where "g = rnd32 (1000 / A)"
  define h where "h = rnd32 (g * 1000)"
  have a1: "(1::real) \<le> of_int a" using a by simp
  then have "(0::real) \<le> of_int a" by linarith
  from rnd32_coarse(1) [OF this] a1 have A: "1 / 2 \<le> A"
    unfolding A_def by linarith
  then have Apos: "0 < A" by linarith
  have "1000 / A \<le> 1000 / (1 / 2)"
    using A by (intro divide_left_mono) simp_all
  then have q: "1000 / A \<le> 2000" by simp
  have q0: "0 < 1000 / A" using Apos by simp
  then have "0 \<le> 1000 / A" by linarith
  from rnd32_coarse(2) [OF this] q rnd32_pos [OF q0]
  have g: "0 < g" "g \<le> 4000"
    unfolding g_def by linarith+
  then have p0: "0 < g * 1000" by simp
  then have "0 \<le> g * 1000" by linarith
  from rnd32_coarse(2) [OF this] g rnd32_pos [OF p0]
  have h: "0 < h" "h \<le> 8000000"
    unfolding h_def by linarith+
  have "A \<noteq> 0" using Apos by simp
  then have "fmul (fdiv (Fin 1000) (Fin A)) (Fin 1000) = Fin h"
    by (simp add: g_def h_def)
  with h show ?thesis
    unfolding A_def by blast
qed

lemma host_frequence_pos:
  assumes "0 < uint t"
  shows "\<exists>h. host_frequence t = Fin h \<and> 0 < h \<and> h \<le> 8000000"
  unfolding host_frequence_def float_of_int_def by (rule host_chain_bounds [OF assms])

lemma uint32_of_host:
  assumes "0 < uint t"
  shows "\<exists>sf. uint32_of_float (host_frequence t) = Some sf"
proof -
  from host_frequence_pos [OF assms] obtain h
    where h: "host_frequence t = Fin h" "0 < h" "h \<le> 8000000" by blast
  then have "0 \<le> h" "h < 2 ^ 32" by simp_all
  from uint32_of_Fin [OF this] h(1) show ?thesis by simp
qed







lemma fold_coeff_body_frame:
  "iCompensation (fold (coeff_body t) xs st) = iCompensation st \<and>
   fBaseMagnitude (fold (coeff_body t) xs st) = fBaseMagnitude st \<and>
   iRealFrequence (fold (coeff_body t) xs st) = iRealFrequence st \<and>
   afQ1 (fold (coeff_body t) xs st) = afQ1 st \<and>
   afQ2 (fold (coeff_body t) xs st) = afQ2 st \<and>
   length (afToneCoeff (fold (coeff_body t) xs st)) = length (afToneCoeff st)"
  by (induction xs arbitrary: st) (simp_all add: coeff_body_def Let_def)

lemma begin_finish_frame:
  "iCompensation (fst (snd (begin_finish t (m, st, w)))) = iCompensation st \<and>
   fBaseMagnitude (fst (snd (begin_finish t (m, st, w)))) = average m \<and>
   iRealFrequence (fst (snd (begin_finish t (m, st, w)))) = iRealFrequence st \<and>
   fst (begin_finish t (m, st, w)) = ucast (iRealFrequence st) \<and>
   snd (snd (begin_finish t (m, st, w))) = w"
  using ResetDTMF_config [of "fold (coeff_body t) [0..<TONES] (st\<lparr>fBaseMagnitude := average m\<rparr>)"]
    fold_coeff_body_frame [of t "[0..<TONES]" "st\<lparr>fBaseMagnitude := average m\<rparr>"]
  by (simp add: begin_finish_def Let_def same_config_def)



lemma ProcessSample_zero_coeff:
  assumes "afToneCoeff st = replicate TONES (Fin 0)" "afQ1 st = replicate TONES (Fin a)"
    "afQ2 st = replicate TONES (Fin b)" "iAdcCentre st = 0" "sint x = d"
  shows "ProcessSample x st =
     st\<lparr>afQ2 := replicate TONES (Fin a),
        afQ1 := replicate TONES (Fin (rnd32 (rnd32 (- b) + rnd32 (real_of_int d))))\<rparr>"
proof -
  have ok: "arrays_ok st" using assms by (simp add: arrays_ok_def)
  have "map (\<lambda>i. fadd (fsub (fmul (afToneCoeff st ! i) (afQ1 st ! i)) (afQ2 st ! i))
                         (float_of_int (sint x - uint (iAdcCentre st)))) [0..<TONES]
        = replicate TONES (Fin (rnd32 (rnd32 (- b) + rnd32 (real_of_int d))))"
    using assms by (simp add: list_eq_iff_nth_eq float_of_int_def fsub_def)
  with assms show ?thesis
    by (simp add: ProcessSample_closed [OF ok])
qed

lemma ProcessSample_calm: "calm st \<Longrightarrow> ProcessSample 0 st = st"
proof -
  assume c: "calm st"
  then have "ProcessSample 0 st = st\<lparr>afQ2 := afQ2 st, afQ1 := afQ1 st\<rparr>"
    using ProcessSample_zero_coeff [of st 0 0 0 0] by (simp add: calm_def)
  then show ?thesis by simp
qed

lemma singleDetect_eq:
  "singleDetect (st, w) =
     (ProcessSample (word_of_int (adc_in w (adc_reads w))) st, w\<lparr>adc_reads := Suc (adc_reads w)\<rparr>)"
  by (simp add: singleDetect_def analogRead_def)

lemma fold_singleDetect_silent:
  assumes "calm st"
  shows "(\<forall>k<n. adc_in w (adc_reads w + k) = 0) \<Longrightarrow>
         fold (\<lambda>j. singleDetect) [0..<n] (st, w) = (st, w\<lparr>adc_reads := adc_reads w + n\<rparr>)"
proof (induction n)
  case 0
  show ?case by simp
next
  case (Suc n)
  then have ih: "fold (\<lambda>j. singleDetect) [0..<n] (st, w) = (st, w\<lparr>adc_reads := adc_reads w + n\<rparr>)"
    by simp
  from Suc.prems have z: "adc_in w (adc_reads w + n) = 0" by simp
  have "fold (\<lambda>j. singleDetect) [0..<Suc n] (st, w) =
        singleDetect (fold (\<lambda>j. singleDetect) [0..<n] (st, w))"
    by simp
  also have "\<dots> = singleDetect (st, w\<lparr>adc_reads := adc_reads w + n\<rparr>)"
    by (simp only: ih)
  also have "\<dots> = (st, w\<lparr>adc_reads := adc_reads w + Suc n\<rparr>)"
    using z assms by (simp add: singleDetect_eq ProcessSample_calm)
  finally show ?case .
qed

lemma detect_body_eq:
  "detect_body i (st, w) =
     (ProcessSample (word_of_int (adc_in w (adc_reads w))) st, w\<lparr>adc_reads := Suc (adc_reads w)\<rparr>)"
  by (simp add: detect_body_def singleDetect_def analogRead_def delayMicroseconds_def)

lemma upt_2: "[0..<nat (sint (2 :: 16 word))] = [0, 1]"
  by (simp add: upt_rec)

text \<open>
  A block of two samples on a calm engine: the readings x1 and x2, small enough to be
  floats, end in Q2 and Q1.
\<close>

lemma sampled_calm_2:
  assumes "calm st" "iSamplesCount st = 2"
    and x1: "sint (word_of_int (adc_in w (adc_reads w)) :: 16 word) = x1"
    and x2: "sint (word_of_int (adc_in w (Suc (adc_reads w))) :: 16 word) = x2"
    and b1: "\<bar>x1\<bar> < 2 ^ 24" and b2: "\<bar>x2\<bar> < 2 ^ 24"
  shows "sampled (st, w) =
     (st\<lparr>afQ2 := replicate TONES (Fin (real_of_int x1)),
         afQ1 := replicate TONES (Fin (real_of_int x2))\<rparr>,
      w\<lparr>clock_reads := Suc (clock_reads w), adc_reads := Suc (Suc (adc_reads w))\<rparr>)"
proof -
  let ?y1 = "word_of_int (adc_in w (adc_reads w)) :: 16 word"
  let ?y2 = "word_of_int (adc_in w (Suc (adc_reads w))) :: 16 word"
  let ?st1 = "st\<lparr>afQ2 := replicate TONES (Fin 0), afQ1 := replicate TONES (Fin (real_of_int x1))\<rparr>"
  have r1: "rnd32 (rnd32 (- 0) + rnd32 (real_of_int x1)) = real_of_int x1"
    by (simp add: rnd32_of_int [OF b1])
  have "ProcessSample ?y1 st =
      st\<lparr>afQ2 := replicate TONES (Fin 0),
         afQ1 := replicate TONES (Fin (rnd32 (rnd32 (- 0) + rnd32 (real_of_int x1))))\<rparr>"
    using assms(1) x1 by (intro ProcessSample_zero_coeff) (simp_all add: calm_def)
  then have 1: "ProcessSample ?y1 st = ?st1" by (simp only: r1)
  have "ProcessSample ?y2 ?st1 =
      ?st1\<lparr>afQ2 := replicate TONES (Fin (real_of_int x1)),
           afQ1 := replicate TONES (Fin (rnd32 (rnd32 (- 0) + rnd32 (real_of_int x2))))\<rparr>"
    using assms(1) x2 by (intro ProcessSample_zero_coeff) (simp_all add: calm_def)
  then have 2: "ProcessSample ?y2 ?st1 =
      st\<lparr>afQ2 := replicate TONES (Fin (real_of_int x1)),
         afQ1 := replicate TONES (Fin (real_of_int x2))\<rparr>"
    by (simp add: rnd32_of_int [OF b2])
  have "sampled (st, w) =
     detect_body 1 (detect_body 0 (st, w\<lparr>clock_reads := Suc (clock_reads w)\<rparr>))"
    unfolding sampled_def fst_conv snd_conv assms(2) upt_2 by simp
  also have "\<dots> = detect_body 1 (?st1, w\<lparr>clock_reads := Suc (clock_reads w), adc_reads := Suc (adc_reads w)\<rparr>)"
    by (simp add: detect_body_eq 1)
  also have "\<dots> = (st\<lparr>afQ2 := replicate TONES (Fin (real_of_int x1)),
         afQ1 := replicate TONES (Fin (real_of_int x2))\<rparr>,
      w\<lparr>clock_reads := Suc (clock_reads w), adc_reads := Suc (Suc (adc_reads w))\<rparr>)"
    by (simp add: detect_body_eq 2)
  finally show ?thesis .
qed

lemma magnitude_zero_coeff:
  assumes "afToneCoeff st = replicate TONES (Fin 0)" "afQ1 st = replicate TONES (Fin a)"
    "afQ2 st = replicate TONES (Fin b)"
    and g: "fsqrt (fsub (fadd (fmul (Fin a) (Fin a)) (fmul (Fin b) (Fin b)))
                        (fmul (fmul (Fin 0) (Fin a)) (Fin b))) = G"
  shows "map (magnitude_of st) [0..<TONES] = replicate TONES G"
proof (rule nth_equalityI)
  show "length (map (magnitude_of st) [0..<TONES]) = length (replicate TONES G)"
    by simp
next
  fix i assume "i < length (map (magnitude_of st) [0..<TONES])"
  then have i: "i < TONES" by simp
  then have "magnitude_of st i =
      fsqrt (fsub (fadd (fmul (Fin a) (Fin a)) (fmul (Fin b) (Fin b)))
                  (fmul (fmul (Fin 0) (Fin a)) (Fin b)))"
    unfolding magnitude_of_def assms(1,2,3) by (simp only: nth_replicate)
  with i g show "map (magnitude_of st) [0..<TONES] ! i = replicate TONES G ! i"
    by simp
qed

lemma calm_reset:
  assumes "calm st"
  shows "st\<lparr>afQ2 := replicate TONES (Fin 0), afQ1 := replicate TONES (Fin 0)\<rparr> = st"
proof -
  from assms have z: "replicate TONES (Fin 0) = afQ1 st" "replicate TONES (Fin 0) = afQ2 st"
    by (simp_all add: calm_def)
  have "st\<lparr>afQ2 := replicate TONES (Fin 0), afQ1 := replicate TONES (Fin 0)\<rparr> =
        st\<lparr>afQ2 := afQ2 st, afQ1 := afQ1 st\<rparr>"
    using z by simp
  then show ?thesis by simp
qed

text \<open>
  Such a block when it takes one millisecond: the three divisions give 1999 Hz, and the
  eight magnitudes are the one of Q1 = x2, Q2 = x1 under a zero coefficient.
\<close>

lemma detect_calm_2:
  assumes c: "calm st" and n: "iSamplesCount st = 2" and e: "elapsed w = 1"
    and l: "length m = TONES"
    and x1: "sint (word_of_int (adc_in w (adc_reads w)) :: 16 word) = x1"
    and x2: "sint (word_of_int (adc_in w (Suc (adc_reads w))) :: 16 word) = x2"
    and b1: "\<bar>x1\<bar> < 2 ^ 24" and b2: "\<bar>x2\<bar> < 2 ^ 24"
    and g: "fsqrt (fsub (fadd (fmul (Fin (real_of_int x2)) (Fin (real_of_int x2)))
                              (fmul (Fin (real_of_int x1)) (Fin (real_of_int x1))))
                        (fmul (fmul (Fin 0) (Fin (real_of_int x2))) (Fin (real_of_int x1)))) = G"
  shows "\<exists>dtmf. detect (Some m) magnitude (st, w) =
     Inr (dtmf, Some (replicate TONES G), st\<lparr>iRealFrequence := 1999\<rparr>,
          w\<lparr>clock_reads := Suc (Suc (clock_reads w)), adc_reads := Suc (Suc (adc_reads w))\<rparr>)"
proof -
  let ?S = "st\<lparr>afQ2 := replicate TONES (Fin (real_of_int x1)),
               afQ1 := replicate TONES (Fin (real_of_int x2))\<rparr>"
  have s: "sampled (st, w) =
     (?S, w\<lparr>clock_reads := Suc (clock_reads w), adc_reads := Suc (Suc (adc_reads w))\<rparr>)"
    by (rule sampled_calm_2 [OF c n x1 x2 b1 b2])
  have ok: "arrays_ok (?S\<lparr>iRealFrequence := 1999\<rparr>)"
    using c by (simp add: arrays_ok_def calm_def)
  have mg: "map (magnitude_of (?S\<lparr>iRealFrequence := 1999\<rparr>)) [0..<TONES] = replicate TONES G"
    using c by (intro magnitude_zero_coeff [OF _ _ _ g]) (simp_all add: calm_def)
  have buf: "fst (snd (calculateMeasurement (Some m) magnitude (?S\<lparr>iRealFrequence := 1999\<rparr>))) =
      Some (replicate TONES G)"
    using l by (simp add: calculateMeasurement_def measure_loop_closed Let_def
        memcpy_floats_def mg)
  have "ResetDTMF (?S\<lparr>iRealFrequence := 1999\<rparr>) =
      (st\<lparr>afQ2 := replicate TONES (Fin 0), afQ1 := replicate TONES (Fin 0)\<rparr>)
        \<lparr>iRealFrequence := 1999\<rparr>"
    by (simp add: ResetDTMF_closed [OF ok])
  then have rs: "ResetDTMF (?S\<lparr>iRealFrequence := 1999\<rparr>) = st\<lparr>iRealFrequence := 1999\<rparr>"
    by (simp only: calm_reset [OF c])
  show ?thesis
    by (simp add: detect_unfold e n measured_frequence_1_2 s buf rs)
qed

lemma rate_step_calm_2:
  assumes c: "calm st" and n: "iSamplesCount st = 2" and e: "elapsed w = 1"
    and l: "length m = TONES"
    and x1: "sint (word_of_int (adc_in w (adc_reads w)) :: 16 word) = x1"
    and x2: "sint (word_of_int (adc_in w (Suc (adc_reads w))) :: 16 word) = x2"
    and b1: "\<bar>x1\<bar> < 2 ^ 24" and b2: "\<bar>x2\<bar> < 2 ^ 24"
    and g: "fsqrt (fsub (fadd (fmul (Fin (real_of_int x2)) (Fin (real_of_int x2)))
                              (fmul (Fin (real_of_int x1)) (Fin (real_of_int x1))))
                        (fmul (fmul (Fin 0) (Fin (real_of_int x2))) (Fin (real_of_int x1)))) = G"
  shows "rate_step maxF (m, st, w) =
     Inr (replicate TONES G,
          st\<lparr>iRealFrequence := 1999,
             iCompensation := adjusted maxF 1999 (iCompensation st)\<rparr>,
          w\<lparr>clock_reads := Suc (Suc (clock_reads w)), adc_reads := Suc (Suc (adc_reads w))\<rparr>)"
proof -
  from detect_calm_2 [OF c n e l x1 x2 b1 b2 g, of "Fin (- 1)"] obtain dtmf where
    "detect (Some m) (Fin (- 1)) (st, w) =
     Inr (dtmf, Some (replicate TONES G), st\<lparr>iRealFrequence := 1999\<rparr>,
          w\<lparr>clock_reads := Suc (Suc (clock_reads w)), adc_reads := Suc (Suc (adc_reads w))\<rparr>)" ..
  then show ?thesis
    by (simp add: rate_step_def adjusted_def Let_def)
qed

lemma host_frequence_1: "host_frequence 1 = Fin 1000000"
  by (simp add: host_frequence_def float_of_int_def)

lemma rnd32_seed_6000:
  "rnd32 (1 / 6) = 11184811 / 67108864"
  "rnd32 (1423065873 / 8589934592) = 5558851 / 33554432"
  "rnd32 (694856375 / 4194304) = 10857131 / 65536"
  using rnd32_eval_down [of "1 / 6" 3 11184811]
    rnd32_eval_down [of "1423065873 / 8589934592" 3 11117702]
    rnd32_eval_up [of 7 "694856375 / 4194304" 10857131]
  by simp_all

lemma seed_6000: "int_of_float (compensation_seed 6000 (Fin 1000000)) = Some 165"
  by (simp add: compensation_seed_def float_of_int_def fsub_def trunc_def rnd32_milli
      rnd32_seed_6000)

lemma uint32_of_million: "uint32_of_float (Fin 1000000) = Some 1000000"
  by (simp add: uint32_of_float_def trunc_def)

lemma begin_warmup_calm:
  assumes c: "calm st" and e: "elapsed w = 1"
    and q: "\<forall>k<1001. adc_in w (adc_reads w + k) = 0"
  shows "begin_warmup pin 6000 (st, w) =
     Inr (st\<lparr>Pin := pin, iCompensation := 165, iAdcCentre := 0, iSamplesFrequence := 1000000\<rparr>,
          w\<lparr>clock_reads := Suc (Suc (clock_reads w)), adc_reads := adc_reads w + 1001\<rparr>)"
proof -
  have cp: "calm (st\<lparr>Pin := pin\<rparr>)"
    using c by (simp add: calm_def)
  have "\<forall>k<1000. adc_in (w\<lparr>clock_reads := Suc (clock_reads w)\<rparr>)
           (adc_reads (w\<lparr>clock_reads := Suc (clock_reads w)\<rparr>) + k) = 0"
    using q by simp
  from fold_singleDetect_silent [OF cp this]
  have wm: "warmed pin (st, w) =
      (st\<lparr>Pin := pin\<rparr>, w\<lparr>clock_reads := Suc (clock_reads w), adc_reads := adc_reads w + 1000\<rparr>)"
    by (simp add: warmed_def)
  from q have a: "adc_in w (adc_reads w + 1000) = 0" by simp
  show ?thesis
    by (simp add: begin_warmup_unfold e host_frequence_1 seed_6000 uint32_of_million wm a
        float_of_int_def)
qed

lemma average_5: "average (replicate TONES (Fin 5)) = Fin 5"
  by (simp add: average_def float_of_int_def TONES_def upt_rec)

lemma average_0: "average (replicate TONES (Fin 0)) = Fin 0"
  by (simp add: average_def float_of_int_def TONES_def upt_rec)

lemma sqrt_25: "sqrt 25 = 5"
  by (rule real_sqrt_unique) simp_all

lemma magnitude_4_3:
  "fsqrt (fsub (fadd (fmul (Fin (real_of_int 4)) (Fin (real_of_int 4)))
                     (fmul (Fin (real_of_int 3)) (Fin (real_of_int 3))))
               (fmul (fmul (Fin 0) (Fin (real_of_int 4))) (Fin (real_of_int 3)))) = Fin 5"
  by (simp add: fsub_def sqrt_25)

lemma magnitude_0_0:
  "fsqrt (fsub (fadd (fmul (Fin (real_of_int 0)) (Fin (real_of_int 0)))
                     (fmul (Fin (real_of_int 0)) (Fin (real_of_int 0))))
               (fmul (fmul (Fin 0) (Fin (real_of_int 0))) (Fin (real_of_int 0)))) = Fin 0"
  by (simp add: fsub_def)

lemma calm_engine_2: "calm engine_2" "iSamplesCount engine_2 = 2" "iRealFrequence engine_2 = 0"
  "iCompensation engine_2 = 0"
  by (simp_all add: engine_2_def PhoneDTMF_new_def zero_memory_def calm_def)

lemma steady_elapsed: "clock_in w = of_nat \<Longrightarrow> elapsed w = 1"
  by (simp add: elapsed_def)

lemma adjusted_values: "adjusted 6000 1999 165 = 164" "adjusted 6000 1999 164 = 163"
  by (simp_all add: adjusted_def)

text \<open>
  begin on the engine of two samples per block, a clock that advances one millisecond
  per call and a line that is silent up to the second block of the loop, which reads x1
  and x2: the warm-up, and the loop, which leaves after its second pass.
\<close>

lemma steady_run:
  assumes ck: "clock_in w = of_nat" and c0: "clock_reads w = 0" and a0: "adc_reads w = 0"
    and q: "\<forall>k<1003. adc_in w k = 0"
    and x1: "sint (word_of_int (adc_in w 1003) :: 16 word) = x1"
    and x2: "sint (word_of_int (adc_in w 1004) :: 16 word) = x2"
    and b1: "\<bar>x1\<bar> < 2 ^ 24" and b2: "\<bar>x2\<bar> < 2 ^ 24"
    and g: "fsqrt (fsub (fadd (fmul (Fin (real_of_int x2)) (Fin (real_of_int x2)))
                              (fmul (Fin (real_of_int x1)) (Fin (real_of_int x1))))
                        (fmul (fmul (Fin 0) (Fin (real_of_int x2))) (Fin (real_of_int x1)))) = G"
  shows "begin_warmup 0 6000 (engine_2, w) =
      Inr (engine_2\<lparr>Pin := 0, iCompensation := 165, iAdcCentre := 0,
                    iSamplesFrequence := 1000000\<rparr>,
           w\<lparr>clock_reads := 2, adc_reads := 1001\<rparr>)"
    and "rate_adjust 6000 (replicate TONES (Fin 0),
            engine_2\<lparr>Pin := 0, iCompensation := 165, iAdcCentre := 0,
                     iSamplesFrequence := 1000000\<rparr>,
            w\<lparr>clock_reads := 2, adc_reads := 1001\<rparr>) =
      Some (Inr (replicate TONES G,
                 engine_2\<lparr>Pin := 0, iCompensation := 163, iAdcCentre := 0,
                          iSamplesFrequence := 1000000, iRealFrequence := 1999\<rparr>,
                 w\<lparr>clock_reads := 6, adc_reads := 1005\<rparr>))"
proof -
  let ?st0 = "engine_2\<lparr>Pin := 0, iCompensation := 165, iAdcCentre := 0,
                    iSamplesFrequence := 1000000\<rparr>"
  let ?w0 = "w\<lparr>clock_reads := 2, adc_reads := 1001\<rparr>"
  let ?st1 = "?st0\<lparr>iRealFrequence := 1999, iCompensation := 164\<rparr>"
  let ?w1 = "w\<lparr>clock_reads := 4, adc_reads := 1003\<rparr>"
  let ?st2 = "?st1\<lparr>iRealFrequence := 1999, iCompensation := 163\<rparr>"
  let ?w2 = "w\<lparr>clock_reads := 6, adc_reads := 1005\<rparr>"
  let ?m2 = "replicate TONES G"
  have "\<forall>k<1001. adc_in w (adc_reads w + k) = 0"
    using q a0 by simp
  from begin_warmup_calm [OF calm_engine_2(1) steady_elapsed [OF ck] this, of 0]
  show "begin_warmup 0 6000 (engine_2, w) = Inr (?st0, ?w0)"
    by (simp add: c0 a0 numeral_2_eq_2)
  have c: "calm ?st0" "calm ?st1"
    using calm_engine_2(1) by (simp_all add: calm_def)
  have n: "iSamplesCount ?st0 = 2" "iSamplesCount ?st1 = 2"
    using calm_engine_2(2) by simp_all
  have e: "elapsed ?w0 = 1" "elapsed ?w1 = 1"
    using ck by (simp_all add: elapsed_def)
  have z: "sint (word_of_int (adc_in ?w0 (adc_reads ?w0)) :: 16 word) = 0"
    "sint (word_of_int (adc_in ?w0 (Suc (adc_reads ?w0))) :: 16 word) = 0"
    using q by simp_all
  have y: "sint (word_of_int (adc_in ?w1 (adc_reads ?w1)) :: 16 word) = x1"
    "sint (word_of_int (adc_in ?w1 (Suc (adc_reads ?w1))) :: 16 word) = x2"
    using x1 x2 by simp_all
  have bz: "\<bar>0 :: int\<bar> < 2 ^ 24" by simp
  have p0: "rate_step 6000 (replicate TONES (Fin 0), ?st0, ?w0) =
      Inr (replicate TONES (Fin 0), ?st1, ?w1)"
    using rate_step_calm_2 [OF c(1) n(1) e(1) _ z bz bz magnitude_0_0,
        of "replicate TONES (Fin 0)" 6000]
    by (simp add: adjusted_values)
  have p1: "rate_step 6000 (replicate TONES (Fin 0), ?st1, ?w1) = Inr (?m2, ?st2, ?w2)"
    using rate_step_calm_2 [OF c(2) n(2) e(2) _ y b1 b2 g, of "replicate TONES (Fin 0)" 6000]
    by (simp add: adjusted_values)
  have f0: "iRealFrequence ?st0 = 0"
    using calm_engine_2(3) by simp
  have f1: "iRealFrequence ?st1 = 1999" "iRealFrequence ?st2 = 1999"
    by simp_all
  have ne: "(0 :: 32 word) \<noteq> 1999"
    by simp
  have "rate_adjust_upto (Suc (Suc 0)) 6000 (replicate TONES (Fin 0), ?st0, ?w0) =
        Some (Inr (?m2, ?st2, ?w2))"
    by (simp only: rate_adjust_upto.simps p0 p1 sum.case fst_conv snd_conv f0 f1 ne
        simp_thms if_True if_False)
  from rate_adjust_upto_sound [OF this]
  show "rate_adjust 6000 (replicate TONES (Fin 0), ?st0, ?w0) =
      Some (Inr (?m2,
                 engine_2\<lparr>Pin := 0, iCompensation := 163, iAdcCentre := 0,
                          iSamplesFrequence := 1000000, iRealFrequence := 1999\<rparr>,
                 ?w2))"
    by simp
qed

lemma world_C_props:
  "clock_in world_C = of_nat" "clock_reads world_C = 0" "adc_reads world_C = 0"
  "\<forall>k<1003. adc_in world_C k = 0"
  "sint (word_of_int (adc_in world_C 1003) :: 16 word) = 3"
  "sint (word_of_int (adc_in world_C 1004) :: 16 word) = 4"
  "\<bar>3 :: int\<bar> < 2 ^ 24" "\<bar>4 :: int\<bar> < 2 ^ 24"
  by (simp_all add: world_C_def)


text \<open>
  C7 as stated fails: on a line that is silent but for the readings 3 and 4 in the second
  block, begin stores the base magnitude 5 of that block, the last of the loop, and has
  made 1005 reads; with one more block after the loop it would store 0 and have made
  1007.
\<close>

theorem base_magnitude_not_from_extra_block:
  "(case begin_PhoneDTMF dtmf_tones 0 6000 (engine_2, world_C) of
      Some (Inr (rf, st, w)) \<Rightarrow>
        fBaseMagnitude st = Fin 5 \<and> adc_reads w = 1005 \<and> clock_reads w = 6
    | _ \<Rightarrow> False)
   \<and> (case begin_extra_block dtmf_tones 0 6000 (engine_2, world_C) of
      Some (Inr (rf, st, w)) \<Rightarrow>
        fBaseMagnitude st = Fin 0 \<and> adc_reads w = 1007 \<and> clock_reads w = 8
    | _ \<Rightarrow> False)"
proof -
  note r = steady_run [OF world_C_props magnitude_4_3]
  let ?st2 = "engine_2\<lparr>Pin := 0, iCompensation := 163, iAdcCentre := 0,
                          iSamplesFrequence := 1000000, iRealFrequence := 1999\<rparr>"
  let ?w2 = "world_C\<lparr>clock_reads := 6, adc_reads := 1005\<rparr>"
  obtain rf st w where f: "begin_finish dtmf_tones (replicate TONES (Fin 5), ?st2, ?w2) = (rf, st, w)"
    by (metis prod_cases3)
  from begin_finish_frame [of dtmf_tones "replicate TONES (Fin 5)" ?st2 ?w2] f
  have 1: "fBaseMagnitude st = Fin 5" "w = ?w2"
    by (simp_all add: average_5)
  have c: "calm ?st2" "iSamplesCount ?st2 = 2"
    using calm_engine_2 by (simp_all add: calm_def)
  have e: "elapsed ?w2 = 1"
    by (simp add: elapsed_def world_C_def)
  have z: "sint (word_of_int (adc_in ?w2 (adc_reads ?w2)) :: 16 word) = 0"
    "sint (word_of_int (adc_in ?w2 (Suc (adc_reads ?w2))) :: 16 word) = 0"
    by (simp_all add: world_C_def)
  have bz: "\<bar>0 :: int\<bar> < 2 ^ 24" by simp
  from detect_calm_2 [OF c e _ z bz bz magnitude_0_0, of "replicate TONES (Fin 5)" "Fin (- 1)"]
  obtain dtmf where d: "detect (Some (replicate TONES (Fin 5))) (Fin (- 1)) (?st2, ?w2) =
     Inr (dtmf, Some (replicate TONES (Fin 0)), ?st2,
          world_C\<lparr>clock_reads := 8, adc_reads := 1007\<rparr>)"
    by auto
  obtain rf' st' w' where f': "begin_finish dtmf_tones (replicate TONES (Fin 0),
        ?st2, world_C\<lparr>clock_reads := 8, adc_reads := 1007\<rparr>) = (rf', st', w')"
    by (metis prod_cases3)
  from begin_finish_frame [of dtmf_tones "replicate TONES (Fin 0)" ?st2
      "world_C\<lparr>clock_reads := 8, adc_reads := 1007\<rparr>"] f'
  have 2: "fBaseMagnitude st' = Fin 0" "w' = world_C\<lparr>clock_reads := 8, adc_reads := 1007\<rparr>"
    by (simp_all add: average_0)
  show ?thesis
    using 1 2
    by (simp add: begin_PhoneDTMF_def begin_extra_block_def r f d f')
qed

text \<open>
  A run of the loop that returns has made some passes that each changed the stored
  frequency, and then the pass whose result it returns, which did not.
\<close>

lemma rate_adjust_upto_last_pass:
  "rate_adjust_upto n maxF s0 = Some (Inr r) \<Longrightarrow>
   \<exists>k s. rate_passes k maxF s0 = Some s \<and> rate_step maxF s = Inr r \<and>
         iRealFrequence (fst (snd s)) = iRealFrequence (fst (snd r))"
proof (induction n arbitrary: s0)
  case 0
  then show ?case by simp
next
  case (Suc n)
  show ?case
  proof (cases "rate_step maxF s0")
    case (Inl e)
    with Suc.prems show ?thesis by simp
  next
    case (Inr s1)
    show ?thesis
    proof (cases "iRealFrequence (fst (snd s0)) \<noteq> iRealFrequence (fst (snd s1))")
      case True
      with Suc.prems Inr have "rate_adjust_upto n maxF s1 = Some (Inr r)" by simp
      from Suc.IH [OF this] obtain k s where
        k: "rate_passes k maxF s1 = Some s" "rate_step maxF s = Inr r"
          "iRealFrequence (fst (snd s)) = iRealFrequence (fst (snd r))"
        by blast
      from k(1) True Inr have "rate_passes (Suc k) maxF s0 = Some s" by simp
      with k(2,3) show ?thesis by blast
    next
      case False
      with Suc.prems Inr have "r = s1" by simp
      moreover have "rate_passes 0 maxF s0 = Some s0" by simp
      ultimately show ?thesis using False Inr by blast
    qed
  qed
qed

lemma rate_passes_length:
  "rate_passes k maxF s0 = Some s \<Longrightarrow> length (fst s0) = TONES \<Longrightarrow> length (fst s) = TONES"
proof (induction k arbitrary: s0)
  case 0
  then show ?case by simp
next
  case (Suc k)
  from Suc.prems(1) obtain s1 where
    s1: "rate_step maxF s0 = Inr s1" and p: "rate_passes k maxF s1 = Some s"
    by (auto split: sum.splits if_splits)
  obtain m0 st0 w0 where s0: "s0 = (m0, st0, w0)" by (cases s0)
  obtain m1 st1 w1 where r1: "s1 = (m1, st1, w1)" by (cases s1)
  from rate_step_facts(8) [OF s1 [unfolded s0 r1]] Suc.prems(2)
  have "length (fst s1) = TONES"
    by (simp add: r1 s0 memcpy_floats_def)
  from Suc.IH [OF p this] show ?case .
qed

lemma memcpy_all:
  "length src = n \<Longrightarrow> length dst = n \<Longrightarrow> memcpy_floats dst src n = src"
  by (simp add: memcpy_floats_def)

text \<open>
  C7, amended.  The base magnitude that begin stores is the average of the TONES
  magnitudes of the last pass of the loop itself: the loop, started on what the warm-up
  left, makes some passes that each change the stored frequency and then the pass that
  measures the frequency stored before it; the magnitudes of that pass are the ones
  averaged, and begin runs no further block and calls no collaborator after it.
\<close>

theorem base_magnitude_from_last_pass:
  assumes "begin_PhoneDTMF tones pin maxF sw = Some (Inr (rf, st', w'))"
  shows "\<exists>st0 w0 n s m st w.
           begin_warmup pin maxF sw = Inr (st0, w0)
         \<and> rate_passes n maxF (replicate TONES (Fin 0), st0, w0) = Some s
         \<and> rate_step maxF s = Inr (m, st, w)
         \<and> iRealFrequence (fst (snd s)) = iRealFrequence st
         \<and> m = map (magnitude_of (fst (sampled (snd s)))) [0..<TONES]
         \<and> fBaseMagnitude st' = average m
         \<and> w' = w"
proof -
  from assms obtain st0 w0 r where
    b: "begin_warmup pin maxF sw = Inr (st0, w0)"
    and l: "rate_adjust maxF (replicate TONES (Fin 0), st0, w0) = Some (Inr r)"
    and f: "begin_finish tones r = (rf, st', w')"
    by (auto simp: begin_PhoneDTMF_def split: sum.splits option.splits)
  from rate_adjust_upto_complete [OF l] obtain k where
    "rate_adjust_upto k maxF (replicate TONES (Fin 0), st0, w0) = Some (Inr r)" ..
  from rate_adjust_upto_last_pass [OF this] obtain n s where
    p: "rate_passes n maxF (replicate TONES (Fin 0), st0, w0) = Some s"
    and s: "rate_step maxF s = Inr r" "iRealFrequence (fst (snd s)) = iRealFrequence (fst (snd r))"
    by blast
  obtain m st w where r: "r = (m, st, w)" by (cases r)
  obtain m1 st1 w1 where s1: "s = (m1, st1, w1)" by (cases s)
  from rate_passes_length [OF p] have "length m1 = TONES"
    by (simp add: s1)
  with rate_step_facts(8) [OF s(1) [unfolded r s1]]
  have "m = map (magnitude_of (fst (sampled (st1, w1)))) [0..<TONES]"
    by (simp add: memcpy_all)
  moreover from begin_finish_frame [of tones m st w] f r
  have "fBaseMagnitude st' = average m" "w' = w" by simp_all
  ultimately have "begin_warmup pin maxF sw = Inr (st0, w0)
         \<and> rate_passes n maxF (replicate TONES (Fin 0), st0, w0) = Some s
         \<and> rate_step maxF s = Inr (m, st, w)
         \<and> iRealFrequence (fst (snd s)) = iRealFrequence st
         \<and> m = map (magnitude_of (fst (sampled (snd s)))) [0..<TONES]
         \<and> fBaseMagnitude st' = average m
         \<and> w' = w"
    using b p s r s1 by simp
  then show ?thesis by blast
qed

theorem base_magnitude_from_last_pass_witness:
  "\<exists>rf st' w'. begin_PhoneDTMF dtmf_tones 0 6000 (engine_2, world_C) = Some (Inr (rf, st', w'))
     \<and> fBaseMagnitude st' = Fin 5
     \<and> (\<exists>st0 w0 n s m st w.
           begin_warmup 0 6000 (engine_2, world_C) = Inr (st0, w0)
         \<and> rate_passes n 6000 (replicate TONES (Fin 0), st0, w0) = Some s
         \<and> rate_step 6000 s = Inr (m, st, w)
         \<and> iRealFrequence (fst (snd s)) = iRealFrequence st
         \<and> m = map (magnitude_of (fst (sampled (snd s)))) [0..<TONES]
         \<and> fBaseMagnitude st' = average m
         \<and> w' = w)"
proof -
  note r = steady_run [OF world_C_props magnitude_4_3]
  let ?st2 = "engine_2\<lparr>Pin := 0, iCompensation := 163, iAdcCentre := 0,
                          iSamplesFrequence := 1000000, iRealFrequence := 1999\<rparr>"
  let ?w2 = "world_C\<lparr>clock_reads := 6, adc_reads := 1005\<rparr>"
  obtain rf st' w' where f: "begin_finish dtmf_tones (replicate TONES (Fin 5), ?st2, ?w2) = (rf, st', w')"
    by (metis prod_cases3)
  from begin_finish_frame [of dtmf_tones "replicate TONES (Fin 5)" ?st2 ?w2] f
  have 1: "fBaseMagnitude st' = Fin 5"
    by (simp add: average_5)
  have 2: "begin_PhoneDTMF dtmf_tones 0 6000 (engine_2, world_C) = Some (Inr (rf, st', w'))"
    by (simp add: begin_PhoneDTMF_def r f)
  from base_magnitude_from_last_pass [OF 2] 1 2 show ?thesis by blast
qed







theorem rate_adjust_returns_when_steady_witness:
  "block_elapsed world_A 0 = block_elapsed world_A (Suc 0)
   \<and> 0 < sint (iSamplesCount engine_2)
   \<and> block_elapsed world_A 0 \<noteq> 0 \<and> block_elapsed world_A (Suc 0) \<noteq> 0
   \<and> (\<exists>s. rate_adjust_upto 2 6000 (replicate TONES (Fin 0), engine_2, world_A) = Some (Inr s)
          \<and> rate_adjust 6000 (replicate TONES (Fin 0), engine_2, world_A) = Some (Inr s))
   \<and> (\<exists>k. rate_passes k 6000 (replicate TONES (Fin 0), engine_2, world_A) = None)"
proof -
  have b: "block_elapsed world_A i = 1" for i
    by (simp add: block_elapsed_def world_A_def)
  have e: "block_elapsed world_A 0 = block_elapsed world_A (Suc 0)"
    by (simp add: b)
  have c: "0 < sint (iSamplesCount engine_2)"
    by (simp add: calm_engine_2)
  have t: "\<forall>i\<le>Suc 0. block_elapsed world_A i \<noteq> 0"
    by (simp add: b)
  note th = rate_adjust_returns_when_steady [of world_A 0 engine_2 6000 "replicate TONES (Fin 0)"]
  from th e c t
  have 1: "\<exists>s. rate_adjust_upto 2 6000 (replicate TONES (Fin 0), engine_2, world_A) = Some (Inr s)
          \<and> rate_adjust 6000 (replicate TONES (Fin 0), engine_2, world_A) = Some (Inr s)"
    by (simp only: add_0 simp_thms)
  with th have 2: "\<exists>k. rate_passes k 6000 (replicate TONES (Fin 0), engine_2, world_A) = None"
    by auto
  have "block_elapsed world_A 0 \<noteq> 0" "block_elapsed world_A (Suc 0) \<noteq> 0"
    by (simp_all add: b)
  with 1 2 show ?thesis
    using e c by blast
qed

section \<open>A loop that never leaves\<close>

lemma jitter_elapsed:
  assumes "clock_in w = jitter" "even (clock_reads w)"
  shows "elapsed w = (if odd (clock_reads w div 2) then 20 else 22)"
proof -
  from assms(2) obtain k where k: "clock_reads w = 2 * k" by (auto elim: evenE)
  show ?thesis
    by (simp add: elapsed_def assms(1) k jitter_def)
qed

lemma rnd32_jitter:
  "rnd32 (1 / 50) = 5368709 / 268435456"
  "rnd32 (5368709 / 34359738368) = 5368709 / 34359738368"
  "rnd32 (34359738368 / 5368709) = 6400"
  "rnd32 (11 / 500) = 1476395 / 67108864"
  "rnd32 (1476395 / 8589934592) = 1476395 / 8589934592"
  "rnd32 (8589934592 / 1476395) = 2978909 / 512"
  using rnd32_eval_down [of "1 / 50" 6 10737418]
    rnd32_eval_down [of "5368709 / 34359738368" 13 10737418]
    rnd32_eval_up [of 12 "34359738368 / 5368709" 13107200]
    rnd32_eval_down [of "11 / 500" 6 11811160]
    rnd32_eval_down [of "1476395 / 8589934592" 13 11811160]
    rnd32_eval_up [of 12 "8589934592 / 1476395" 11915636]
  by simp_all

lemma uint32_of_measured_128:
  "uint32_of_float (measured_frequence 20 128) = Some 6400"
  "uint32_of_float (measured_frequence 22 128) = Some 5818"
  by (simp_all add: measured_frequence_def uint32_of_float_def float_of_int_def trunc_def
      rnd32_jitter)

lemma jitter_step:
  assumes "jitter_inv s"
  shows "\<exists>s'. rate_step 6000 s = Inr s' \<and> jitter_inv s'
            \<and> iRealFrequence (fst (snd s)) \<noteq> iRealFrequence (fst (snd s'))"
proof -
  obtain m st w where s: "s = (m, st, w)" by (cases s)
  from assms s have i: "clock_in w = jitter" "even (clock_reads w)" "iSamplesCount st = 128"
    "iRealFrequence st \<noteq> jitter_frequence (clock_reads w)"
    by (simp_all add: jitter_inv_def)
  have rf: "uint32_of_float (measured_frequence (elapsed w) (iSamplesCount st))
              = Some (jitter_frequence (clock_reads w))"
    by (simp add: jitter_elapsed [OF i(1,2)] i(3) uint32_of_measured_128 jitter_frequence_def)
  then obtain m' st' w' where r: "rate_step 6000 (m, st, w) = Inr (m', st', w')"
    by (cases "rate_step 6000 (m, st, w)") (auto simp: rate_step_Inl)
  note f = rate_step_facts [OF r]
  from f(1) rf have fr: "iRealFrequence st' = jitter_frequence (clock_reads w)" by simp
  from i(2) obtain k where k: "clock_reads w = 2 * k" by (auto elim: evenE)
  have "jitter_frequence (clock_reads w + 2) \<noteq> jitter_frequence (clock_reads w)"
    by (simp add: jitter_frequence_def k)
  with f fr i have "jitter_inv (m', st', w')"
    by (simp add: jitter_inv_def)
  with r fr i(4) s show ?thesis by auto
qed

lemma jitter_never:
  "jitter_inv s \<Longrightarrow> rate_adjust_upto n 6000 s = None"
proof (induction n arbitrary: s)
  case 0
  show ?case by simp
next
  case (Suc n)
  from jitter_step [OF Suc.prems] obtain s' where
    s': "rate_step 6000 s = Inr s'" "jitter_inv s'"
    "iRealFrequence (fst (snd s)) \<noteq> iRealFrequence (fst (snd s'))" by blast
  from Suc.IH [OF s'(2)] s'(1,3) show ?case by simp
qed

lemma engine_128_props: "iSamplesCount engine_128 = 128" "iRealFrequence engine_128 = 0"
  by (simp_all add: engine_128_def PhoneDTMF_new_def zero_memory_def)

lemma world_J_elapsed: "elapsed world_J = 22"
  by (simp add: elapsed_def world_J_def jitter_def)

text \<open>
  The warm-up returns when it took some time and maxFrequence is not zero: the host
  frequency and the seed are finite then.
\<close>

lemma seed_chain_Fin:
  fixes mx :: int and h :: real
  assumes "0 < mx" "0 < h"
  shows "\<exists>v. fmul (fsub (fdiv (Fin 1000) (Fin (rnd32 (of_int mx)))) (fdiv (Fin 1000) (Fin h)))
                 (Fin 1000) = Fin v"
proof -
  have "(0::real) < of_int mx" using assms(1) by simp
  then have "0 < rnd32 (of_int mx)" by (rule rnd32_pos)
  then have "rnd32 (of_int mx) \<noteq> 0" by simp
  moreover have "h \<noteq> 0" using assms(2) by simp
  ultimately show ?thesis by (simp add: fsub_def)
qed

lemma begin_warmup_returns:
  assumes e: "elapsed w \<noteq> 0" and m: "maxF \<noteq> 0"
  shows "\<exists>c sf. begin_warmup pin maxF (st, w) =
           Inr ((fst (warmed pin (st, w)))
                  \<lparr>iCompensation := c,
                   iAdcCentre := word_of_int (adc_in w (adc_reads w + 1000)),
                   iSamplesFrequence := sf\<rparr>,
                (snd (warmed pin (st, w)))
                  \<lparr>clock_reads := Suc (Suc (clock_reads w)),
                   adc_reads := adc_reads w + 1001\<rparr>)"
proof -
  note t = uint_pos [OF e]
  note mp = uint_pos [OF m]
  from host_frequence_pos [OF t] obtain h
    where h: "host_frequence (elapsed w) = Fin h" "0 < h" by blast
  from seed_chain_Fin [OF mp h(2)] obtain v
    where "compensation_seed maxF (host_frequence (elapsed w)) = Fin v"
    unfolding compensation_seed_def h(1) float_of_int_def by blast
  then have "int_of_float (compensation_seed maxF (host_frequence (elapsed w))) = Some (trunc v)"
    by simp
  then have "\<exists>c. (if fless (float_of_int (uint maxF)) (host_frequence (elapsed w))
            then int_of_float (compensation_seed maxF (host_frequence (elapsed w)))
            else Some (iCompensation st)) = Some c"
    by (cases "fless (float_of_int (uint maxF)) (host_frequence (elapsed w))") simp_all
  then obtain c where
    c: "(if fless (float_of_int (uint maxF)) (host_frequence (elapsed w))
            then int_of_float (compensation_seed maxF (host_frequence (elapsed w)))
            else Some (iCompensation st)) = Some c" ..
  from uint32_of_host [OF t] obtain sf
    where sf: "uint32_of_float (host_frequence (elapsed w)) = Some sf" ..
  show ?thesis
    unfolding begin_warmup_unfold c sf by (intro exI [of _ c] exI [of _ sf]) simp
qed

text \<open>
  C5 as stated fails: with blocks of 128 samples and a clock by which the blocks take 22
  and 20 milliseconds in turn, the measured frequency is 5818 and 6400 in turn, no pass
  measures the frequency of the pass before it, and begin never returns.
\<close>

theorem rate_adjust_never_returns:
  "begin_PhoneDTMF dtmf_tones 0 6000 (engine_128, world_J) = None"
proof -
  have e: "elapsed world_J \<noteq> 0"
    by (simp add: world_J_elapsed)
  have m: "(6000 :: 32 word) \<noteq> 0"
    by simp
  from begin_warmup_returns [OF e m, of 0 engine_128] obtain c sf st w where
    b: "begin_warmup 0 6000 (engine_128, world_J) = Inr (st, w)"
    and st: "st = (fst (warmed 0 (engine_128, world_J)))
                   \<lparr>iCompensation := c,
                      iAdcCentre := word_of_int (adc_in world_J (adc_reads world_J + 1000)),
                      iSamplesFrequence := sf\<rparr>"
    and w: "w = (snd (warmed 0 (engine_128, world_J)))
                   \<lparr>clock_reads := Suc (Suc (clock_reads world_J)),
                      adc_reads := adc_reads world_J + 1001\<rparr>"
    by blast
  from warmed_frame [of 0 engine_128 world_J]
  have "jitter_inv (replicate TONES (Fin 0), st, w)"
    by (simp add: jitter_inv_def st w same_config_def engine_128_props world_J_def
        jitter_frequence_def)
  then have "rate_adjust 6000 (replicate TONES (Fin 0), st, w) = None"
    by (intro rate_adjust_upto_None allI jitter_never)
  with b show ?thesis
    by (simp add: begin_PhoneDTMF_def)
qed

section \<open>The rate measurements\<close>











end
